theory Spec2Isabelle
  imports
    Main
    "HOL-Library.Char_ord"
    "HOL-Library.List_Lexorder"
    "HOL-Library.Product_Lexorder"
    "HOL-Library.Option_ord"
    "HOL-Library.Sublist"
    "HOL-Library.Multiset"
begin

section \<open>PV Finder: schema normalisation and query evaluation\<close>

text \<open>
  A shallow embedding of \<^verbatim>\<open>src/pv_finder_app.py\<close>: the upload pipeline
  (\<^verbatim>\<open>_strip_columns\<close>, \<^verbatim>\<open>_apply_header_aliases\<close>, \<^verbatim>\<open>_ensure_required\<close>,
  \<^verbatim>\<open>_parse_code_date_numeric\<close>, \<^verbatim>\<open>_latest_per_pv_flag\<close>) and the query evaluation of
  lines 224 to 257.

  The program works on pandas data frames. A frame is modelled by its column labels and
  its rows; a vectorised operation on a column is a \<open>map\<close> over the rows. The pandas
  operations are modelled with the semantics of pandas 1.x and 2.x (object columns,
  \<^verbatim>\<open>astype(str)\<close> rendering every element with \<^verbatim>\<open>str\<close>).

  Scope of the data model. A cell of an uploaded sheet is text or blank: \<^verbatim>\<open>read_excel\<close>
  reads a blank cell as the float \<^verbatim>\<open>nan\<close>. The third kind of cell, \<^verbatim>\<open>pd.NA\<close>, is what
  \<^verbatim>\<open>_ensure_required\<close> writes into a column it adds. Numeric cells of the sheet are not
  modelled, and every header is a text. Text is ASCII: \<open>lower\<close> and \<open>strip\<close> treat the
  ASCII letters and the ASCII white space as Python does.

  Three functions of the libraries are parameters of the model: the parser of
  \<^verbatim>\<open>pd.to_numeric\<close> for a text that is not empty, Python's \<^verbatim>\<open>float\<close> on a text, and the
  regular expression engine for the patterns the model does not search itself. What is
  proved holds for any such functions.
\<close>

subsection \<open>Cells, rows, frames\<close>

datatype cell = NA | NaN | Str string

text \<open>
  A cell of the derived column \<^verbatim>\<open>CodeDate_num\<close>: \<^verbatim>\<open>pd.NA\<close> (the else-branch of
  \<^verbatim>\<open>_parse_code_date_numeric\<close>), the float \<^verbatim>\<open>nan\<close>, or a number. The type \<open>'n\<close> of
  the numbers is any linear order (the non-nan values of a float64).
\<close>

datatype 'n numcell = NumNA | NumNaN | Num 'n

record row =
  vals :: "cell list"

record 'n drow = row +
  CodeDate_num :: "'n numcell"

record 'n rrow = "'n drow" +
  IsLatestPerPV :: bool

text \<open>
  \<open>columns\<close> holds the labels of the object columns, in order, duplicates included;
  \<open>vals r\<close> holds the cells of row \<open>r\<close> under these labels. The derived columns
  \<^verbatim>\<open>CodeDate_num\<close> and \<^verbatim>\<open>IsLatestPerPV\<close> are typed fields of the rows.
\<close>

record 'r frame =
  columns :: "string list"
  rows :: "'r list"

datatype error = KeyError | TypeError | ValueError | AttributeError | ReError

definition wf_frame :: "('a row_scheme) frame \<Rightarrow> bool" where
  "wf_frame df = list_all (\<lambda>r. length (vals r) = length (columns df)) (rows df)"

subsection \<open>Python strings\<close>

definition is_space :: "char \<Rightarrow> bool" where
  "is_space c = (c \<in> set [CHR 0x09, CHR 0x0A, CHR 0x0B, CHR 0x0C, CHR 0x0D,
                            CHR 0x1C, CHR 0x1D, CHR 0x1E, CHR 0x1F, CHR 0x20])"

definition strip :: "string \<Rightarrow> string" where
  "strip s = rev (dropWhile is_space (rev (dropWhile is_space s)))"

definition lower_char :: "char \<Rightarrow> char" where
  "lower_char c =
     (if CHR ''A'' \<le> c \<and> c \<le> CHR ''Z'' then char_of (of_char c + (32::nat)) else c)"

definition lower :: "string \<Rightarrow> string" where
  "lower s = map lower_char s"

text \<open>\<^verbatim>\<open>s.split(sep)\<close> for a separator of one character.\<close>

fun split_on :: "char \<Rightarrow> string \<Rightarrow> string list" where
  "split_on sep [] = [[]]"
| "split_on sep (c # cs) =
     (if c = sep then [] # split_on sep cs
      else (case split_on sep cs of
              [] \<Rightarrow> [[c]]
            | w # ws \<Rightarrow> (c # w) # ws))"

text \<open>
  A Python dict, in insertion order: assigning to a key that is present keeps its place.
\<close>

fun dict_set :: "'k \<Rightarrow> 'v \<Rightarrow> ('k \<times> 'v) list \<Rightarrow> ('k \<times> 'v) list" where
  "dict_set k v [] = [(k, v)]"
| "dict_set k v ((k', v') # kvs) =
     (if k' = k then (k, v) # kvs else (k', v') # dict_set k v kvs)"

subsection \<open>Required columns and header aliases\<close>

definition REQUIRED_COLUMNS :: "string list" where
  "REQUIRED_COLUMNS =
     [''PVNumber'', ''PVStatus'', ''Description'', ''DocumentType'', ''NoteForMarketing'',
      ''CaseTypeDescriptor'', ''AirFillDescriptor'', ''CodeDate'', ''SalesClass'', ''Size'',
      ''Shape'', ''CasesPerLayer(TI)'', ''HI(Layers/Pallet)'',
      ''TotalNumberOfCasesPerPallet'', ''BagsOrTraysPerLayer'']"

text \<open>
  Every pattern of \<^verbatim>\<open>HEADER_ALIASES\<close> is an alternation of literal texts (one of them with
  escaped parentheses), so a pattern is kept as the list of its alternatives.
\<close>

definition HEADER_ALIASES :: "(string \<times> string list) list" where
  "HEADER_ALIASES =
     [(''PVNumber'', [''pv number'', ''pv_number'', ''pv no'', ''pvno'', ''pv num'', ''pv id'']),
      (''PVStatus'', [''pv status'', ''status'', ''pv details'', ''pv_status'']),
      (''Description'', [''description'', ''desc'', ''product description'']),
      (''DocumentType'', [''document type'', ''doctype'', ''doc type'', ''doc_type'']),
      (''NoteForMarketing'',
         [''note for marketing'', ''marketing note'', ''notes marketing'', ''note_marketing'']),
      (''CaseTypeDescriptor'', [''case type descriptor'', ''case type'', ''case descriptor'']),
      (''AirFillDescriptor'',
         [''air fill descriptor'', ''airfill descriptor'', ''air fill'', ''air_fill'']),
      (''CodeDate'', [''code date'', ''codedate'', ''code_date'', ''date code'', ''mfg date'']),
      (''SalesClass'', [''sales class'', ''sales_class'', ''class'']),
      (''Size'', [''size'', ''pack size'', ''net weight'', ''weight'']),
      (''Shape'', [''shape'', ''format'']),
      (''CasesPerLayer(TI)'',
         [''cases per layer'', ''cases/layer'', ''ti'', ''cases_per_layer'',
          ''cases per layer (ti)'']),
      (''HI(Layers/Pallet)'',
         [''hi'', ''layers per pallet'', ''layers/pallet'', ''layers_per_pallet'']),
      (''TotalNumberOfCasesPerPallet'',
         [''total cases per pallet'', ''total number of cases per pallet'',
          ''total cases/pallet'']),
      (''BagsOrTraysPerLayer'',
         [''bags per layer'', ''trays per layer'', ''bags_or_trays_per_layer'',
          ''bags/trays per layer''])]"

text \<open>
  \<^verbatim>\<open>re.compile(rf"^(?:{pattern})$", re.IGNORECASE).match(low)\<close>: the whole text is one of
  the alternatives, letter case ignored; \<^verbatim>\<open>$\<close> also matches before a final newline.
\<close>

definition alias_match :: "string list \<Rightarrow> string \<Rightarrow> bool" where
  "alias_match alts low =
     list_ex (\<lambda>a. lower low = a \<or> lower low = a @ [CHR 0x0A]) alts"

subsection \<open>The schema normaliser\<close>

definition strip_columns :: "('a row_scheme) frame \<Rightarrow> ('a row_scheme) frame" where
  "strip_columns df = df\<lparr>columns := map strip (columns df)\<rparr>"

definition lowered_of :: "string list \<Rightarrow> (string \<times> string) list" where
  "lowered_of cols = foldl (\<lambda>d c. dict_set (lower c) c d) [] cols"

fun alias_loop ::
  "(string \<times> string list) list \<Rightarrow> string list \<Rightarrow> (string \<times> string) list \<Rightarrow>
   (string \<times> string) list \<Rightarrow> (string \<times> string) list" where
  "alias_loop [] cols lowered rename_map = rename_map"
| "alias_loop ((canon, alts) # rest) cols lowered rename_map =
     (if canon \<in> set cols then alias_loop rest cols lowered rename_map
      else (case find (\<lambda>(low, orig). alias_match alts low) lowered of
              None \<Rightarrow> alias_loop rest cols lowered rename_map
            | Some (low, orig) \<Rightarrow>
                alias_loop rest cols lowered (dict_set orig canon rename_map)))"

definition rename_columns :: "(string \<times> string) list \<Rightarrow> string list \<Rightarrow> string list" where
  "rename_columns rename_map cols =
     map (\<lambda>c. case map_of rename_map c of None \<Rightarrow> c | Some c' \<Rightarrow> c') cols"

definition apply_header_aliases :: "('a row_scheme) frame \<Rightarrow> ('a row_scheme) frame" where
  "apply_header_aliases df =
     df\<lparr>columns :=
          rename_columns
            (alias_loop HEADER_ALIASES (columns df) (lowered_of (columns df)) [])
            (columns df)\<rparr>"

text \<open>\<^verbatim>\<open>df[col] = pd.NA\<close> for a label that is not in the frame: a new last column.\<close>

definition add_column :: "string \<Rightarrow> cell \<Rightarrow> row frame \<Rightarrow> row frame" where
  "add_column c v df =
     \<lparr>columns = columns df @ [c], rows = map (\<lambda>r. r\<lparr>vals := vals r @ [v]\<rparr>) (rows df)\<rparr>"

fun add_missing :: "string list \<Rightarrow> row frame \<Rightarrow> row frame" where
  "add_missing [] df = df"
| "add_missing (col # cols) df =
     add_missing cols (if col \<notin> set (columns df) then add_column col NA df else df)"

text \<open>The positions at which a label stands among the column labels.\<close>

definition positions :: "string list \<Rightarrow> string \<Rightarrow> nat list" where
  "positions cols c = filter (\<lambda>i. cols ! i = c) [0..<length cols]"

text \<open>
  \<^verbatim>\<open>df[labels]\<close> with a list of labels: \<^verbatim>\<open>KeyError\<close> when a label is not in the frame;
  a label that several columns carry selects all of them.
\<close>

definition getitem_list :: "string list \<Rightarrow> row frame \<Rightarrow> error + row frame" where
  "getitem_list labels df =
     (if \<exists>c \<in> set labels. c \<notin> set (columns df) then Inl KeyError
      else let idx = concat (map (positions (columns df)) labels)
           in Inr \<lparr>columns = map (\<lambda>i. columns df ! i) idx,
                   rows = map (\<lambda>r. r\<lparr>vals := map (\<lambda>i. vals r ! i) idx\<rparr>) (rows df)\<rparr>)"

definition ensure_required :: "row frame \<Rightarrow> error + row frame" where
  "ensure_required df = getitem_list REQUIRED_COLUMNS (add_missing REQUIRED_COLUMNS df)"

text \<open>Lines 120 to 122: the three steps of the normaliser, in the order of the upload.\<close>

definition normalize :: "row frame \<Rightarrow> error + row frame" where
  "normalize df = ensure_required (apply_header_aliases (strip_columns df))"

subsection \<open>Date derivation and the latest flag\<close>

text \<open>
  \<^verbatim>\<open>pd.to_numeric(..., errors="coerce")\<close> on one cell. The parser of a non-empty text
  is a parameter, \<open>parse\<close>: \<open>None\<close> when the text is no number (or reads as nan). An
  empty text and a missing cell give nan without the parser being asked.
\<close>

definition to_numeric_coerce :: "(string \<Rightarrow> 'n option) \<Rightarrow> cell \<Rightarrow> 'n numcell" where
  "to_numeric_coerce parse c =
     (case c of
        Str s \<Rightarrow> (if s = [] then NumNaN
                  else (case parse s of None \<Rightarrow> NumNaN | Some x \<Rightarrow> Num x))
      | _ \<Rightarrow> NumNaN)"

text \<open>
  With two columns labelled \<^verbatim>\<open>CodeDate\<close>, \<^verbatim>\<open>df["CodeDate"]\<close> is a frame and
  \<^verbatim>\<open>pd.to_numeric\<close> raises \<^verbatim>\<open>TypeError\<close>.
\<close>

definition parse_code_date_numeric ::
  "(string \<Rightarrow> 'n option) \<Rightarrow> row frame \<Rightarrow> error + 'n drow frame" where
  "parse_code_date_numeric parse df =
     (case positions (columns df) ''CodeDate'' of
        [] \<Rightarrow>
          Inr \<lparr>columns = columns df,
               rows = map (\<lambda>r. \<lparr>vals = vals r, CodeDate_num = NumNA\<rparr>) (rows df)\<rparr>
      | [i] \<Rightarrow>
          Inr \<lparr>columns = columns df,
               rows = map (\<lambda>r. \<lparr>vals = vals r,
                                 CodeDate_num = to_numeric_coerce parse (vals r ! i)\<rparr>)
                          (rows df)\<rparr>
      | _ \<Rightarrow> Inl TypeError)"

text \<open>
  The order of \<^verbatim>\<open>sort_values(["PVNumber","CodeDate_num"], ascending=[True,False])\<close>:
  by \<^verbatim>\<open>PVNumber\<close> ascending with the missing values last, then by \<^verbatim>\<open>CodeDate_num\<close>
  descending with the missing values last; the sort on several columns is stable.
  \<open>Desc\<close> reverses an order, so that \<open>sort_key\<close> (stable) sorts descending.
\<close>

datatype 'a desc = Desc (undesc: 'a)

instantiation desc :: (linorder) linorder
begin

definition less_eq_desc :: "'a desc \<Rightarrow> 'a desc \<Rightarrow> bool" where
  "less_eq_desc x y = (undesc y \<le> undesc x)"

definition less_desc :: "'a desc \<Rightarrow> 'a desc \<Rightarrow> bool" where
  "less_desc x y = (undesc y < undesc x)"

instance
  by standard (auto simp: less_eq_desc_def less_desc_def desc.expand)

end

text \<open>
  The key of a \<^verbatim>\<open>PVNumber\<close> cell, for sorting and for \<^verbatim>\<open>duplicated\<close>: the missing
  values are one key, after every text. (A column holds one kind of missing value: nan
  when it comes from the sheet, \<^verbatim>\<open>pd.NA\<close> when \<^verbatim>\<open>_ensure_required\<close> added it.) Texts are
  ordered as Python orders them, character by character.
\<close>

definition pv_key :: "cell \<Rightarrow> bool \<times> string" where
  "pv_key c = (case c of Str s \<Rightarrow> (False, s) | _ \<Rightarrow> (True, []))"

definition num_opt :: "'n numcell \<Rightarrow> 'n option" where
  "num_opt c = (case c of Num x \<Rightarrow> Some x | _ \<Rightarrow> None)"

definition sort_k ::
  "nat \<Rightarrow> ('n::linorder, 'a) drow_scheme \<Rightarrow> (bool \<times> string) \<times> 'n option desc" where
  "sort_k i r = (pv_key (vals r ! i), Desc (num_opt (CodeDate_num r)))"

text \<open>\<^verbatim>\<open>duplicated(keep="first")\<close> on a list of keys: true where the key stood before.\<close>

fun duplicated :: "'k list \<Rightarrow> 'k list \<Rightarrow> bool list" where
  "duplicated seen [] = []"
| "duplicated seen (k # ks) = (k \<in> set seen) # duplicated (k # seen) ks"

definition flagged :: "'n drow \<Rightarrow> bool \<Rightarrow> 'n rrow" where
  "flagged r b = \<lparr>vals = vals r, CodeDate_num = CodeDate_num r, IsLatestPerPV = b\<rparr>"

text \<open>
  With two columns labelled \<^verbatim>\<open>PVNumber\<close>, \<^verbatim>\<open>sort_values\<close> raises \<^verbatim>\<open>ValueError\<close>
  (the label is not unique).
\<close>

definition latest_per_pv_flag :: "('n::linorder) drow frame \<Rightarrow> error + 'n rrow frame" where
  "latest_per_pv_flag df =
     (case positions (columns df) ''PVNumber'' of
        [] \<Rightarrow> Inr \<lparr>columns = columns df, rows = map (\<lambda>r. flagged r False) (rows df)\<rparr>
      | [i] \<Rightarrow>
          (let tmp = sort_key (sort_k i) (rows df);
               dup = duplicated [] (map (\<lambda>r. pv_key (vals r ! i)) tmp)
           in Inr \<lparr>columns = columns df,
                   rows = map2 (\<lambda>r d. flagged r (\<not> d)) tmp dup\<rparr>)
      | _ \<Rightarrow> Inl ValueError)"

text \<open>
  Line 119, for a sheet of texts and blanks: \<^verbatim>\<open>read_excel\<close> gives the headers as labels
  and the rows of the sheet, a blank cell (\<open>None\<close>) as nan.
\<close>

definition read_excel :: "string list \<Rightarrow> string option list list \<Rightarrow> row frame" where
  "read_excel headers body =
     \<lparr>columns = headers,
      rows = map (\<lambda>cs. \<lparr>vals = map (\<lambda>c. case c of None \<Rightarrow> NaN | Some t \<Rightarrow> Str t) cs\<rparr>) body\<rparr>"

text \<open>
  Lines 119 to 125: the upload pipeline after \<^verbatim>\<open>read_excel\<close>. An exception of any step
  is caught at line 128 and no table is loaded.
\<close>

definition load ::
  "(string \<Rightarrow> ('n::linorder) option) \<Rightarrow> row frame \<Rightarrow> error + 'n rrow frame" where
  "load parse raw =
     (case normalize raw of
        Inl e \<Rightarrow> Inl e
      | Inr df \<Rightarrow>
          (case parse_code_date_numeric parse df of
             Inl e \<Rightarrow> Inl e
           | Inr d \<Rightarrow> latest_per_pv_flag d))"

subsection \<open>Regular expressions\<close>

text \<open>
  \<^verbatim>\<open>Series.str.contains(pat)\<close> compiles \<open>pat\<close> as a regular expression
  (\<^verbatim>\<open>regex=True\<close> is the default) and keeps the texts in which \<^verbatim>\<open>search\<close> finds a match.
  The model computes the search itself for a pattern made of ordinary characters and
  dots: an ordinary character matches itself, a dot matches any character but a
  newline. Any other pattern goes to the parameter \<open>engine\<close>, which stands for Python's
  \<^verbatim>\<open>re\<close>: it gets the flag \<^verbatim>\<open>IGNORECASE\<close> and the pattern, and returns the search
  function, or \<open>None\<close> when \<^verbatim>\<open>re.compile\<close> raises \<^verbatim>\<open>re.error\<close>.
\<close>

type_synonym regex_engine = "bool \<Rightarrow> string \<Rightarrow> (string \<Rightarrow> bool) option"

definition operators :: "char list" where
  "operators = [CHR ''^'', CHR ''$'', CHR ''*'', CHR ''+'', CHR ''?'', CHR ''{'', CHR ''}'',
                CHR ''['', CHR '']'', CHR 0x5C, CHR ''|'', CHR ''('', CHR '')'']"

definition simple_pattern :: "string \<Rightarrow> bool" where
  "simple_pattern pat = list_all (\<lambda>c. c \<notin> set operators) pat"

definition literal_pattern :: "string \<Rightarrow> bool" where
  "literal_pattern pat = list_all (\<lambda>c. c \<notin> set (CHR ''.'' # operators)) pat"

fun match_here :: "string \<Rightarrow> string \<Rightarrow> bool" where
  "match_here [] s = True"
| "match_here (p # ps) [] = False"
| "match_here (p # ps) (c # cs) =
     ((if p = CHR ''.'' then c \<noteq> CHR 0x0A else p = c) \<and> match_here ps cs)"

fun search :: "string \<Rightarrow> string \<Rightarrow> bool" where
  "search pat [] = match_here pat []"
| "search pat (c # cs) = (match_here pat (c # cs) \<or> search pat cs)"

definition re_compile :: "regex_engine \<Rightarrow> bool \<Rightarrow> string \<Rightarrow> (string \<Rightarrow> bool) option" where
  "re_compile engine ignorecase pat =
     (if simple_pattern pat
      then Some (\<lambda>s. if ignorecase then search (lower pat) (lower s) else search pat s)
      else engine ignorecase pat)"

subsection \<open>Columns and masks\<close>

text \<open>
  \<^verbatim>\<open>base[col]\<close> as it is used by the masks: the series of the one column labelled
  \<open>col\<close>. \<^verbatim>\<open>KeyError\<close> when no column has the label. When several have it the
  selection is a frame, and the use that follows (\<^verbatim>\<open>.str\<close>, \<^verbatim>\<open>mask &= ...\<close>) raises
  \<^verbatim>\<open>AttributeError\<close>.
\<close>

definition series :: "('a row_scheme) frame \<Rightarrow> string \<Rightarrow> error + cell list" where
  "series df col =
     (case positions (columns df) col of
        [] \<Rightarrow> Inl KeyError
      | [i] \<Rightarrow> Inr (map (\<lambda>r. vals r ! i) (rows df))
      | _ \<Rightarrow> Inl AttributeError)"

text \<open>\<^verbatim>\<open>str(x)\<close> of a cell: \<^verbatim>\<open>str(pd.NA)\<close> is \<^verbatim>\<open><NA>\<close>, \<^verbatim>\<open>str(float("nan"))\<close> is \<^verbatim>\<open>nan\<close>.\<close>

definition render :: "cell \<Rightarrow> string" where
  "render c = (case c of NA \<Rightarrow> ''<NA>'' | NaN \<Rightarrow> ''nan'' | Str s \<Rightarrow> s)"

definition astype_str :: "cell list \<Rightarrow> string list" where
  "astype_str s = map render s"

definition str_lower :: "string list \<Rightarrow> string list" where
  "str_lower s = map lower s"

definition str_contains ::
  "regex_engine \<Rightarrow> bool \<Rightarrow> string \<Rightarrow> string list \<Rightarrow> error + bool list" where
  "str_contains engine ignorecase pat s =
     (case re_compile engine ignorecase pat of
        None \<Rightarrow> Inl ReError
      | Some f \<Rightarrow> Inr (map f s))"

definition isin :: "string list \<Rightarrow> string list \<Rightarrow> bool list" where
  "isin s vs = map (\<lambda>x. x \<in> set vs) s"

definition mask_and :: "bool list \<Rightarrow> bool list \<Rightarrow> bool list" where
  "mask_and m m' = map2 (\<and>) m m'"

definition mask_or :: "bool list \<Rightarrow> bool list \<Rightarrow> bool list" where
  "mask_or m m' = map2 (\<or>) m m'"

text \<open>\<^verbatim>\<open>base[mask]\<close>: the rows at which the mask is true, in order.\<close>

definition getitem_mask :: "'r frame \<Rightarrow> bool list \<Rightarrow> 'r frame" where
  "getitem_mask df m = df\<lparr>rows := map fst (filter snd (zip (rows df) m))\<rparr>"

text \<open>
  For the comparison of the operators with a fixed placeholder: the table in which every
  missing cell is replaced by a text, \<^verbatim>\<open>nan\<close> under a label that is one of \<open>headers\<close>
  and \<^verbatim>\<open><NA>\<close> under any other label. No function of the program computes it.
\<close>

definition placeholder :: "string list \<Rightarrow> string \<Rightarrow> cell \<Rightarrow> cell" where
  "placeholder headers c v =
     (case v of
        Str t \<Rightarrow> Str t
      | _ \<Rightarrow> Str (if c \<in> set headers then ''nan'' else ''<NA>''))"

definition with_placeholders ::
  "string list \<Rightarrow> ('a row_scheme) frame \<Rightarrow> ('a row_scheme) frame" where
  "with_placeholders headers df =
     df\<lparr>rows := map (\<lambda>r. r\<lparr>vals := map2 (placeholder headers) (columns df) (vals r)\<rparr>)
                     (rows df)\<rparr>"

subsection \<open>The query\<close>

text \<open>
  What lines 224 to 257 read: the text of the global search, the basic filters (column
  to selected values), the advanced filters (column to mode and value), the two texts
  of the date range and the toggle. The two dicts are lists of items in insertion order.
  Lines 178 to 206 build them with labels of \<^verbatim>\<open>REQUIRED_COLUMNS\<close> as keys; a key is
  looked up among the labels of the object columns.
\<close>

record query =
  query_text :: string
  basic_filters :: "(string \<times> string list) list"
  adv_filters :: "(string \<times> string \<times> string) list"
  min_str :: string
  max_str :: string
  keep_latest_only :: bool

text \<open>Lines 228 to 229: the loop over the required columns.\<close>

fun global_loop ::
  "regex_engine \<Rightarrow> string \<Rightarrow> ('a row_scheme) frame \<Rightarrow> string list \<Rightarrow> bool list \<Rightarrow>
   error + bool list" where
  "global_loop engine q base [] mm = Inr mm"
| "global_loop engine q base (col # cols) mm =
     (case series base col of
        Inl e \<Rightarrow> Inl e
      | Inr s \<Rightarrow>
          (case str_contains engine False q (str_lower (astype_str s)) of
             Inl e \<Rightarrow> Inl e
           | Inr m \<Rightarrow> global_loop engine q base cols (mask_or mm m)))"

text \<open>Lines 226 to 230.\<close>

definition global_mask ::
  "regex_engine \<Rightarrow> string \<Rightarrow> ('a row_scheme) frame \<Rightarrow> bool list \<Rightarrow> error + bool list" where
  "global_mask engine q base msk =
     (if q \<noteq> [] then
        (case global_loop engine q base REQUIRED_COLUMNS
                (replicate (length (rows base)) False) of
           Inl e \<Rightarrow> Inl e
         | Inr mm \<Rightarrow> Inr (mask_and msk mm))
      else Inr msk)"

text \<open>Lines 232 to 234.\<close>

fun basic_loop ::
  "('a row_scheme) frame \<Rightarrow> (string \<times> string list) list \<Rightarrow> bool list \<Rightarrow> error + bool list"
  where
  "basic_loop base [] msk = Inr msk"
| "basic_loop base ((col, selected) # items) msk =
     (if selected \<noteq> [] then
        (case series base col of
           Inl e \<Rightarrow> Inl e
         | Inr s \<Rightarrow> basic_loop base items (mask_and msk (isin (astype_str s) selected)))
      else basic_loop base items msk)"

text \<open>Line 244: the entries of an in-list value.\<close>

definition in_list_items :: "string \<Rightarrow> string list" where
  "in_list_items val = map strip (filter (\<lambda>v. strip v \<noteq> []) (split_on CHR '';'' val))"

text \<open>Lines 236 to 245. A mode that is none of the three leaves the mask as it is.\<close>

fun adv_loop ::
  "regex_engine \<Rightarrow> ('a row_scheme) frame \<Rightarrow> (string \<times> string \<times> string) list \<Rightarrow> bool list \<Rightarrow>
   error + bool list" where
  "adv_loop engine base [] msk = Inr msk"
| "adv_loop engine base ((col, mode, val) # items) msk =
     (case series base col of
        Inl e \<Rightarrow> Inl e
      | Inr s \<Rightarrow>
          (if mode = ''contains'' then
             (case str_contains engine True val (astype_str s) of
                Inl e \<Rightarrow> Inl e
              | Inr m \<Rightarrow> adv_loop engine base items (mask_and msk m))
           else if mode = ''equals'' then
             adv_loop engine base items
               (mask_and msk (map (\<lambda>x. x = lower val) (str_lower (astype_str s))))
           else if mode = ''in list'' then
             adv_loop engine base items
               (mask_and msk (isin (astype_str s) (in_list_items val)))
           else adv_loop engine base items msk))"

text \<open>
  Lines 247 to 252. \<open>py_float\<close> stands for Python's \<^verbatim>\<open>float\<close> on a text: \<open>None\<close> when
  it raises \<^verbatim>\<open>ValueError\<close>, \<open>Some None\<close> for nan, \<open>Some (Some x)\<close> for a number.
  \<^verbatim>\<open>astype(float)\<close> raises \<^verbatim>\<open>TypeError\<close> on \<^verbatim>\<open>pd.NA\<close>; on a number it is taken to be
  exact (the rounding of an integer beyond \<open>2 ^ 53\<close> is not modelled). A comparison
  with nan is false. Whatever is raised inside the \<^verbatim>\<open>try\<close> is caught and the mask stays
  as it is.
\<close>

definition astype_float :: "'n numcell list \<Rightarrow> 'n option list option" where
  "astype_float s = (if NumNA \<in> set s then None else Some (map num_opt s))"

definition float_ge :: "('n::linorder) option \<Rightarrow> 'n option \<Rightarrow> bool" where
  "float_ge x y = (case (x, y) of (Some a, Some b) \<Rightarrow> b \<le> a | _ \<Rightarrow> False)"

definition float_le :: "('n::linorder) option \<Rightarrow> 'n option \<Rightarrow> bool" where
  "float_le x y = (case (x, y) of (Some a, Some b) \<Rightarrow> a \<le> b | _ \<Rightarrow> False)"

definition date_range_try ::
  "(string \<Rightarrow> ('n::linorder) option option) \<Rightarrow> string \<Rightarrow> string \<Rightarrow>
   ('n, 'a) drow_scheme frame \<Rightarrow> bool list \<Rightarrow> bool list option" where
  "date_range_try py_float mn mx base msk =
     (case py_float mn of
        None \<Rightarrow> None
      | Some min_n \<Rightarrow>
          (case py_float mx of
             None \<Rightarrow> None
           | Some max_n \<Rightarrow>
               (case astype_float (map CodeDate_num (rows base)) of
                  None \<Rightarrow> None
                | Some xs \<Rightarrow>
                    Some (mask_and msk
                            (mask_and (map (\<lambda>x. float_ge x min_n) xs)
                                      (map (\<lambda>x. float_le x max_n) xs))))))"

definition date_range_mask ::
  "(string \<Rightarrow> ('n::linorder) option option) \<Rightarrow> string \<Rightarrow> string \<Rightarrow>
   ('n, 'a) drow_scheme frame \<Rightarrow> bool list \<Rightarrow> bool list" where
  "date_range_mask py_float mn mx base msk =
     (if mn \<noteq> [] \<and> mx \<noteq> [] then
        (case date_range_try py_float mn mx base msk of
           None \<Rightarrow> msk
         | Some msk' \<Rightarrow> msk')
      else msk)"

text \<open>
  Lines 256 to 257: \<^verbatim>\<open>sort_values\<close> raises \<^verbatim>\<open>KeyError\<close> without a column
  \<^verbatim>\<open>PVNumber\<close> and \<^verbatim>\<open>ValueError\<close> with several; \<^verbatim>\<open>drop_duplicates(keep="first")\<close> keeps
  the rows that \<^verbatim>\<open>duplicated\<close> does not mark.
\<close>

definition keep_latest ::
  "(('n::linorder, 'a) drow_scheme) frame \<Rightarrow> error + ('n, 'a) drow_scheme frame" where
  "keep_latest filtered =
     (case positions (columns filtered) ''PVNumber'' of
        [] \<Rightarrow> Inl KeyError
      | [i] \<Rightarrow>
          (let sorted_rows = sort_key (sort_k i) (rows filtered);
               dup = duplicated [] (map (\<lambda>r. pv_key (vals r ! i)) sorted_rows)
           in Inr (getitem_mask (filtered\<lparr>rows := sorted_rows\<rparr>) (map Not dup)))
      | _ \<Rightarrow> Inl ValueError)"

text \<open>Lines 224 to 252: the mask of the query.\<close>

definition query_mask ::
  "regex_engine \<Rightarrow> (string \<Rightarrow> ('n::linorder) option option) \<Rightarrow> ('n, 'a) drow_scheme frame \<Rightarrow>
   query \<Rightarrow> error + bool list" where
  "query_mask engine py_float base qr =
     (let q = lower (strip (query_text qr));
          mask0 = replicate (length (rows base)) True
      in case global_mask engine q base mask0 of
           Inl e \<Rightarrow> Inl e
         | Inr mask1 \<Rightarrow>
             (case basic_loop base (basic_filters qr) mask1 of
                Inl e \<Rightarrow> Inl e
              | Inr mask2 \<Rightarrow>
                  (case adv_loop engine base (adv_filters qr) mask2 of
                     Inl e \<Rightarrow> Inl e
                   | Inr mask3 \<Rightarrow>
                       Inr (date_range_mask py_float (min_str qr) (max_str qr) base mask3))))"

text \<open>Lines 224 to 257: from the query to \<^verbatim>\<open>filtered\<close>.\<close>

definition evaluate ::
  "regex_engine \<Rightarrow> (string \<Rightarrow> ('n::linorder) option option) \<Rightarrow> 'n rrow frame \<Rightarrow> query \<Rightarrow>
   error + 'n rrow frame" where
  "evaluate engine py_float base qr =
     (case query_mask engine py_float base qr of
        Inl e \<Rightarrow> Inl e
      | Inr msk \<Rightarrow>
          (let filtered = getitem_mask base msk
           in if keep_latest_only qr then keep_latest filtered else Inr filtered))"

section \<open>Sample tables\<close>

text \<open>
  A sheet row with the four columns the examples look at; the other eleven columns are
  in the sheet and blank.
\<close>

definition row_of :: "string \<Rightarrow> string \<Rightarrow> string \<Rightarrow> string \<Rightarrow> cell list" where
  "row_of pv descr code_date shape =
     [Str pv, NaN, Str descr, NaN, NaN, NaN, NaN, Str code_date, NaN, NaN, Str shape,
      NaN, NaN, NaN, NaN]"

definition sample_dated :: "int drow frame" where
  "sample_dated =
     \<lparr>columns = REQUIRED_COLUMNS,
      rows =
        [\<lparr>vals = row_of ''P2'' ''Cookie'' ''n/a'' ''round'', CodeDate_num = NumNaN\<rparr>,
         \<lparr>vals = row_of ''P1'' ''Potato Chips'' ''20230101'' ''Round'',
          CodeDate_num = Num 20230101\<rparr>,
         \<lparr>vals = row_of ''P1'' ''Microchip Tray'' ''20240101'' ''Square'',
          CodeDate_num = Num 20240101\<rparr>]\<rparr>"

definition sample_base :: "int rrow frame" where
  "sample_base =
     \<lparr>columns = REQUIRED_COLUMNS,
      rows =
        [\<lparr>vals = row_of ''P1'' ''Microchip Tray'' ''20240101'' ''Square'',
          CodeDate_num = Num 20240101, IsLatestPerPV = True\<rparr>,
         \<lparr>vals = row_of ''P1'' ''Potato Chips'' ''20230101'' ''Round'',
          CodeDate_num = Num 20230101, IsLatestPerPV = False\<rparr>,
         \<lparr>vals = row_of ''P2'' ''Cookie'' ''n/a'' ''round'',
          CodeDate_num = NumNaN, IsLatestPerPV = True\<rparr>]\<rparr>"

text \<open>The same records with the same flags, in the order of the sheet.\<close>

definition sample_unsorted :: "int rrow frame" where
  "sample_unsorted =
     \<lparr>columns = REQUIRED_COLUMNS,
      rows =
        [\<lparr>vals = row_of ''P2'' ''Cookie'' ''n/a'' ''round'',
          CodeDate_num = NumNaN, IsLatestPerPV = True\<rparr>,
         \<lparr>vals = row_of ''P1'' ''Potato Chips'' ''20230101'' ''Round'',
          CodeDate_num = Num 20230101, IsLatestPerPV = False\<rparr>,
         \<lparr>vals = row_of ''P1'' ''Microchip Tray'' ''20240101'' ''Square'',
          CodeDate_num = Num 20240101, IsLatestPerPV = True\<rparr>]\<rparr>"

text \<open>
  The library functions of the examples. A plain numeral is a text of one to fifteen
  ASCII digits: its value is exact in a float64, and \<^verbatim>\<open>pd.to_numeric\<close> and \<^verbatim>\<open>float\<close>
  both read it as that value. \<^verbatim>\<open>float\<close> reads \<^verbatim>\<open>nan\<close> as nan, which for
  \<^verbatim>\<open>pd.to_numeric\<close> is a missing value. The other texts the examples pass to the two
  functions are made of letters and a slash (\<^verbatim>\<open>n/a\<close>, \<^verbatim>\<open>abc\<close>): \<^verbatim>\<open>float\<close> raises
  \<^verbatim>\<open>ValueError\<close> on them and \<^verbatim>\<open>pd.to_numeric\<close> coerces them to nan. The two sample
  readers stand for the library on these texts only: a text with a sign, a fraction, an
  exponent or blanks around a numeral is a number for the library and is none for
  them, and no example passes one. The regular expression engine is asked only for a
  pattern with an operator other than the dot; no example has one.
\<close>

definition is_digit :: "char \<Rightarrow> bool" where
  "is_digit c = (CHR ''0'' \<le> c \<and> c \<le> CHR ''9'')"

definition plain_numeral :: "string \<Rightarrow> bool" where
  "plain_numeral s = (s \<noteq> [] \<and> length s \<le> 15 \<and> list_all is_digit s)"

definition numeral_value :: "string \<Rightarrow> int" where
  "numeral_value s = foldl (\<lambda>a c. 10 * a + (int (of_char c) - 48)) 0 s"

definition sample_number :: "string \<Rightarrow> int option" where
  "sample_number s = (if plain_numeral s then Some (numeral_value s) else None)"

definition sample_float :: "string \<Rightarrow> int option option" where
  "sample_float s =
     (if s = ''nan'' then Some None
      else if plain_numeral s then Some (Some (numeral_value s))
      else None)"

definition no_engine :: regex_engine where
  "no_engine ignorecase pat = None"

text \<open>A query that only the older record of \<^verbatim>\<open>P1\<close> satisfies, and its result.\<close>

definition potato_query :: query where
  "potato_query =
     \<lparr>query_text = ''potato'', basic_filters = [], adv_filters = [], min_str = [],
      max_str = [], keep_latest_only = True\<rparr>"

definition potato_only :: "int rrow frame" where
  "potato_only =
     \<lparr>columns = REQUIRED_COLUMNS,
      rows = [\<lparr>vals = row_of ''P1'' ''Potato Chips'' ''20230101'' ''Round'',
               CodeDate_num = Num 20230101, IsLatestPerPV = False\<rparr>]\<rparr>"

text \<open>
  Three sheets, the table loaded from the second, and that table with a text in the
  place of every missing cell: \<^verbatim>\<open>nan\<close> under the two headers of the sheet, \<^verbatim>\<open><NA>\<close>
  under the thirteen added labels.
\<close>

definition sample_sheet :: "row frame" where
  "sample_sheet =
     \<lparr>columns = REQUIRED_COLUMNS,
      rows =
        [\<lparr>vals = row_of ''P2'' ''Cookie'' ''n/a'' ''round''\<rparr>,
         \<lparr>vals = row_of ''P1'' ''Potato Chips'' ''20230101'' ''Round''\<rparr>,
         \<lparr>vals = row_of ''P1'' ''Microchip Tray'' ''20240101'' ''Square''\<rparr>]\<rparr>"

definition blank_shape_sheet :: "row frame" where
  "blank_shape_sheet =
     \<lparr>columns = [''PVNumber'', ''Shape''], rows = [\<lparr>vals = [Str ''P1'', NaN]\<rparr>]\<rparr>"

definition blank_shape_row :: "int rrow" where
  "blank_shape_row =
     \<lparr>vals = [Str ''P1'', NA, NA, NA, NA, NA, NA, NA, NA, NA, NaN, NA, NA, NA, NA],
      CodeDate_num = NumNaN, IsLatestPerPV = True\<rparr>"

definition blank_shape_base :: "int rrow frame" where
  "blank_shape_base = \<lparr>columns = REQUIRED_COLUMNS, rows = [blank_shape_row]\<rparr>"

definition blank_shape_filled :: "int rrow frame" where
  "blank_shape_filled =
     \<lparr>columns = REQUIRED_COLUMNS,
      rows =
        [\<lparr>vals = [Str ''P1'', Str ''<NA>'', Str ''<NA>'', Str ''<NA>'', Str ''<NA>'',
                  Str ''<NA>'', Str ''<NA>'', Str ''<NA>'', Str ''<NA>'', Str ''<NA>'',
                  Str ''nan'', Str ''<NA>'', Str ''<NA>'', Str ''<NA>'', Str ''<NA>''],
          CodeDate_num = NumNaN, IsLatestPerPV = True\<rparr>]\<rparr>"

definition twin_shape_sheet :: "row frame" where
  "twin_shape_sheet =
     \<lparr>columns = [''Shape'', ''Shape ''], rows = [\<lparr>vals = [Str ''Round'', Str ''Square'']\<rparr>]\<rparr>"

section \<open>Properties\<close>

subsection \<open>Masks and selections\<close>

lemma getitem_mask_True: "getitem_mask df (replicate (length (rows df)) True) = df"
proof -
  have "map fst (filter snd (zip xs (replicate (length xs) True))) = xs" for xs :: "'a list"
    by (induction xs) auto
  then show ?thesis by (simp add: getitem_mask_def)
qed

lemma basic_loop_no_selection:
  "list_all (\<lambda>(c, sel). sel = []) bf \<Longrightarrow> basic_loop base bf m = Inr m"
  by (induction bf) auto

lemma mask_and_left_commute:
  "mask_and (mask_and m x) y = mask_and (mask_and m y) x"
proof (induction m arbitrary: x y)
  case Nil
  then show ?case by (simp add: mask_and_def)
next
  case (Cons b m)
  then show ?case
    by (cases x; cases y) (auto simp: mask_and_def)
qed

lemma getitem_mask_and:
  "getitem_mask df (mask_and m (map R (rows df))) =
   (getitem_mask df m)\<lparr>rows := filter R (rows (getitem_mask df m))\<rparr>"
proof -
  have "map fst (filter snd (zip xs (map2 (\<and>) m (map R xs)))) =
        filter R (map fst (filter snd (zip xs m)))" for xs :: "'a list"
  proof (induction xs arbitrary: m)
    case Nil
    then show ?case by simp
  next
    case (Cons x xs)
    then show ?case by (cases m) auto
  qed
  then show ?thesis by (simp add: getitem_mask_def mask_and_def)
qed

text \<open>A further conjunct on the mask passes through each loop.\<close>

lemma basic_loop_and:
  "basic_loop base bf (mask_and m x) =
   (case basic_loop base bf m of Inl e \<Rightarrow> Inl e | Inr m' \<Rightarrow> Inr (mask_and m' x))"
proof (induction bf arbitrary: m)
  case Nil
  then show ?case by simp
next
  case (Cons a bf)
  obtain col sel where a: "a = (col, sel)" by (cases a)
  show ?case
    using Cons.IH
    by (simp add: a mask_and_left_commute [of m x] split: sum.splits)
qed

lemma basic_loop_append:
  "basic_loop base (bf1 @ bf2) m =
   (case basic_loop base bf1 m of Inl e \<Rightarrow> Inl e | Inr m' \<Rightarrow> basic_loop base bf2 m')"
proof (induction bf1 arbitrary: m)
  case Nil
  then show ?case by simp
next
  case (Cons a bf1)
  obtain col sel where a: "a = (col, sel)" by (cases a)
  show ?case using Cons.IH by (simp add: a split: sum.splits)
qed

lemma adv_loop_and:
  "adv_loop engine base af (mask_and m x) =
   (case adv_loop engine base af m of Inl e \<Rightarrow> Inl e | Inr m' \<Rightarrow> Inr (mask_and m' x))"
proof (induction af arbitrary: m)
  case Nil
  then show ?case by simp
next
  case (Cons a af)
  obtain col mode val where a: "a = (col, mode, val)" by (cases a)
  show ?case
    using Cons.IH
    by (simp add: a mask_and_left_commute [of m x] split: sum.splits)
qed

lemma adv_loop_append:
  "adv_loop engine base (af1 @ af2) m =
   (case adv_loop engine base af1 m of Inl e \<Rightarrow> Inl e | Inr m' \<Rightarrow> adv_loop engine base af2 m')"
proof (induction af1 arbitrary: m)
  case Nil
  then show ?case by simp
next
  case (Cons a af1)
  obtain col mode val where a: "a = (col, mode, val)" by (cases a)
  show ?case using Cons.IH by (simp add: a split: sum.splits)
qed

lemma date_range_mask_and:
  "date_range_mask py_float mn mx base (mask_and m x) =
   mask_and (date_range_mask py_float mn mx base m) x"
  by (simp add: date_range_mask_def date_range_try_def mask_and_left_commute [of m x]
      split: option.splits)

subsection \<open>Searching a pattern without operators\<close>

lemma lower_char_dot: "lower_char c = CHR ''.'' \<longleftrightarrow> c = CHR ''.''"
proof (cases "CHR ''A'' \<le> c \<and> c \<le> CHR ''Z''")
  case True
  then have r: "65 \<le> (of_char c :: nat)" "(of_char c :: nat) \<le> 90"
    by (simp_all add: less_eq_char_def)
  have "(of_char (char_of (of_char c + (32::nat))) :: nat) = (of_char c + 32) mod 256"
    by (simp only: of_char_of)
  also have "\<dots> = of_char c + 32" using r by simp
  finally have "(of_char (lower_char c) :: nat) \<noteq> 46" using True r
    by (simp add: lower_char_def)
  moreover have "(of_char c :: nat) \<noteq> 46" using r by simp
  ultimately show ?thesis by auto
next
  case False
  then show ?thesis by (auto simp: lower_char_def)
qed

lemma match_here_literal:
  "CHR ''.'' \<notin> set p \<Longrightarrow> match_here p s \<longleftrightarrow> prefix p s"
  by (induction p s rule: match_here.induct) auto

lemma search_literal:
  "CHR ''.'' \<notin> set p \<Longrightarrow> search p s \<longleftrightarrow> (\<exists>pre post. s = pre @ p @ post)"
proof (induction s)
  case Nil
  then show ?case by (cases p) auto
next
  case (Cons c s)
  show ?case
  proof
    assume "search p (c # s)"
    then consider "prefix p (c # s)" | "search p s"
      using Cons.prems by (auto simp: match_here_literal)
    then show "\<exists>pre post. c # s = pre @ p @ post"
    proof cases
      case 1
      then obtain post where "c # s = p @ post" by (auto simp: prefix_def)
      then have "c # s = [] @ p @ post" by simp
      then show ?thesis by blast
    next
      case 2
      then obtain pre post where "s = pre @ p @ post" using Cons by blast
      then have "c # s = (c # pre) @ p @ post" by simp
      then show ?thesis by blast
    qed
  next
    assume "\<exists>pre post. c # s = pre @ p @ post"
    then obtain pre post where e: "c # s = pre @ p @ post" by blast
    show "search p (c # s)"
    proof (cases pre)
      case Nil
      then have "prefix p (c # s)" using e by (simp add: prefix_def)
      then show ?thesis using Cons.prems by (simp add: match_here_literal)
    next
      case (Cons a pre')
      then have "s = pre' @ p @ post" using e by simp
      then have "search p s" using Cons.IH Cons.prems \<open>CHR ''.'' \<notin> set p\<close> by blast
      then show ?thesis by simp
    qed
  qed
qed

subsection \<open>Filters as conjuncts of the mask\<close>

lemma series_unique:
  "positions (columns base) col = [i] \<Longrightarrow>
   series base col = Inr (map (\<lambda>r. vals r ! i) (rows base))"
  by (simp add: series_def)

lemma isin_series:
  "isin (astype_str (map (\<lambda>r. vals r ! i) rs)) vs = map (\<lambda>r. render (vals r ! i) \<in> set vs) rs"
  by (simp add: isin_def astype_str_def)

lemma literal_simple: "literal_pattern p \<Longrightarrow> simple_pattern p"
  by (induction p) (auto simp: literal_pattern_def simple_pattern_def)

lemma literal_lower_no_dot:
  assumes "literal_pattern p"
  shows "CHR ''.'' \<notin> set (lower p)"
proof
  assume "CHR ''.'' \<in> set (lower p)"
  then obtain c where "c \<in> set p" "lower_char c = CHR ''.''"
    by (auto simp: lower_def)
  then have "CHR ''.'' \<in> set p" by (simp add: lower_char_dot)
  then show False using assms by (auto simp: literal_pattern_def list_all_iff)
qed

lemma str_contains_literal:
  assumes "literal_pattern val"
  shows "str_contains engine True val (astype_str (map (\<lambda>r. vals r ! i) rs)) =
         Inr (map (\<lambda>r. sublist (lower val) (lower (render (vals r ! i)))) rs)"
  using assms
  by (simp add: str_contains_def re_compile_def literal_simple astype_str_def
      search_literal literal_lower_no_dot sublist_def)

text \<open>One more filter in the query: one more conjunct in its mask.\<close>

lemma query_mask_basic:
  assumes "basic_filters qr = bfa @ (col, sel) # bfb" and "sel \<noteq> []"
    and "positions (columns base) col = [i]"
  shows "query_mask engine py_float base qr =
         (case query_mask engine py_float base (qr\<lparr>basic_filters := bfa @ bfb\<rparr>) of
            Inl e \<Rightarrow> Inl e
          | Inr m \<Rightarrow> Inr (mask_and m (map (\<lambda>r. render (vals r ! i) \<in> set sel) (rows base))))"
  using assms
  by (simp add: query_mask_def Let_def basic_loop_append series_unique isin_series
      basic_loop_and adv_loop_and date_range_mask_and split: sum.splits)

lemma query_mask_adv_in_list:
  assumes "adv_filters qr = afa @ (col, ''in list'', val) # afb"
    and "positions (columns base) col = [i]"
  shows "query_mask engine py_float base qr =
         (case query_mask engine py_float base (qr\<lparr>adv_filters := afa @ afb\<rparr>) of
            Inl e \<Rightarrow> Inl e
          | Inr m \<Rightarrow> Inr (mask_and m (map (\<lambda>r. render (vals r ! i) \<in> set (in_list_items val))
                                     (rows base))))"
  using assms
  by (simp add: query_mask_def Let_def adv_loop_append series_unique isin_series
      adv_loop_and date_range_mask_and split: sum.splits)

lemma query_mask_adv_equals:
  assumes "adv_filters qr = afa @ (col, ''equals'', val) # afb"
    and "positions (columns base) col = [i]"
  shows "query_mask engine py_float base qr =
         (case query_mask engine py_float base (qr\<lparr>adv_filters := afa @ afb\<rparr>) of
            Inl e \<Rightarrow> Inl e
          | Inr m \<Rightarrow> Inr (mask_and m (map (\<lambda>r. lower (render (vals r ! i)) = lower val)
                                     (rows base))))"
  using assms
  by (simp add: query_mask_def Let_def adv_loop_append series_unique str_lower_def astype_str_def
      adv_loop_and date_range_mask_and comp_def split: sum.splits)

lemma query_mask_adv_contains:
  assumes "adv_filters qr = afa @ (col, ''contains'', val) # afb"
    and "positions (columns base) col = [i]" and "literal_pattern val"
  shows "query_mask engine py_float base qr =
         (case query_mask engine py_float base (qr\<lparr>adv_filters := afa @ afb\<rparr>) of
            Inl e \<Rightarrow> Inl e
          | Inr m \<Rightarrow> Inr (mask_and m
               (map (\<lambda>r. sublist (lower val) (lower (render (vals r ! i))))
                    (rows base))))"
  using assms
  by (simp add: query_mask_def Let_def adv_loop_append series_unique str_contains_literal
      adv_loop_and date_range_mask_and split: sum.splits)

lemma evaluate_refine:
  assumes "\<not> keep_latest_only qr" and "\<not> keep_latest_only qr'"
    and "query_mask engine py_float base qr =
         (case query_mask engine py_float base qr' of
            Inl e \<Rightarrow> Inl e
          | Inr m \<Rightarrow> Inr (mask_and m (map R (rows base))))"
    and "evaluate engine py_float base qr' = Inr res"
  shows "evaluate engine py_float base qr = Inr (res\<lparr>rows := filter R (rows res)\<rparr>)"
  using assms
  by (auto simp: evaluate_def getitem_mask_and split: sum.splits)

lemma in_range_iff:
  "float_ge (num_opt c) lo \<and> float_le (num_opt c) hi \<longleftrightarrow>
   (\<exists>a b x. lo = Some a \<and> hi = Some b \<and> c = Num x \<and> a \<le> x \<and> x \<le> b)"
  by (cases c; cases lo; cases hi) (auto simp: float_ge_def float_le_def num_opt_def)

lemma query_mask_date_range:
  fixes base :: "('n::linorder, 'm) drow_scheme frame"
  assumes "min_str qr \<noteq> []" and "max_str qr \<noteq> []"
    and "py_float (min_str qr) = Some lo" and "py_float (max_str qr) = Some hi"
    and "NumNA \<notin> set (map CodeDate_num (rows base))"
  shows "query_mask engine py_float base qr =
         (case query_mask engine py_float base (qr\<lparr>min_str := [], max_str := []\<rparr>) of
            Inl e \<Rightarrow> Inl e
          | Inr m \<Rightarrow> Inr (mask_and m
               (map (\<lambda>r. \<exists>a b x. lo = Some a \<and> hi = Some b \<and> CodeDate_num r = Num x \<and>
                                 a \<le> x \<and> x \<le> b) (rows base))))"
proof -
  have "mask_and (map (\<lambda>x. float_ge x lo) (map num_opt (map CodeDate_num rs)))
                 (map (\<lambda>x. float_le x hi) (map num_opt (map CodeDate_num rs))) =
        map (\<lambda>r. \<exists>a b x. lo = Some a \<and> hi = Some b \<and> CodeDate_num r = Num x \<and>
                          a \<le> x \<and> x \<le> b) rs" for rs :: "('n, 'm) drow_scheme list"
    by (induction rs) (simp_all add: mask_and_def in_range_iff)
  then show ?thesis
    using assms
    by (simp add: query_mask_def Let_def date_range_mask_def date_range_try_def astype_float_def
        split: sum.splits)
qed

lemma query_mask_date_dropped:
  assumes "min_str qr = [] \<or> max_str qr = [] \<or> py_float (min_str qr) = None \<or>
           py_float (max_str qr) = None"
  shows "query_mask engine py_float base qr =
         query_mask engine py_float base (qr\<lparr>min_str := [], max_str := []\<rparr>)"
  using assms
  by (auto simp: query_mask_def Let_def date_range_mask_def date_range_try_def
      split: sum.splits option.splits)

lemma mask_sample_no_filter:
  "query_mask no_engine sample_float sample_base
     \<lparr>query_text = [], basic_filters = [], adv_filters = [], min_str = [], max_str = [],
      keep_latest_only = True\<rparr> = Inr [True, True, True]"
  by code_simp

lemma evaluate_sample_no_filter:
  "evaluate no_engine sample_float sample_base
     \<lparr>query_text = [], basic_filters = [], adv_filters = [], min_str = [], max_str = [],
      keep_latest_only = False\<rparr> = Inr sample_base"
  by (simp add: evaluate_def query_mask_def global_mask_def lower_def strip_def
      date_range_mask_def getitem_mask_True)


lemma positions_Shape: "positions REQUIRED_COLUMNS ''Shape'' = [10]"
  by code_simp

lemma positions_Description: "positions REQUIRED_COLUMNS ''Description'' = [2]"
  by code_simp

subsection \<open>Sorting and the first row of each key\<close>

lemma length_duplicated: "length (duplicated seen ks) = length ks"
  by (induction ks arbitrary: seen) auto

text \<open>The rows that \<open>duplicated\<close> does not mark: the first row of each new key.\<close>

lemma first_of_key:
  "filter (\<lambda>x. f x = k) (map fst (filter snd (zip xs (map Not (duplicated seen (map f xs)))))) =
   (if k \<in> set seen then [] else take 1 (filter (\<lambda>x. f x = k) xs))"
proof (induction xs arbitrary: seen)
  case Nil
  then show ?case by simp
next
  case (Cons x xs)
  show ?case
  proof (cases "f x = k")
    case True
    then show ?thesis using Cons.IH [of "f x # seen"] by auto
  next
    case False
    then show ?thesis using Cons.IH [of "f x # seen"] by auto
  qed
qed

lemma subseq_unmarked: "subseq (map fst (filter snd (zip xs m))) xs"
proof (induction xs arbitrary: m)
  case Nil
  then show ?case by simp
next
  case (Cons x xs)
  then show ?case by (cases m) auto
qed

lemma find_as_filter:
  "find P xs = (case filter P xs of [] \<Rightarrow> None | x # _ \<Rightarrow> Some x)"
  by (induction xs) auto

lemma sorted_subseq:
  "subseq xs ys \<Longrightarrow> sorted (map f ys) \<Longrightarrow> sorted (map f xs)"
proof (induction rule: list_emb.induct)
  case (list_emb_Nil ys)
  then show ?case by simp
next
  case (list_emb_Cons xs ys y)
  then show ?case by simp
next
  case (list_emb_Cons2 x y xs ys)
  then have "set xs \<subseteq> set ys" by (auto dest: list_emb_set)
  with list_emb_Cons2 show ?case by auto
qed

text \<open>The head of a group in the sorted rows.\<close>

lemma sorted_group_head:
  fixes rs :: "('n::linorder, 'm) drow_scheme list"
  assumes "r \<in> set rs" and "pv_key (vals r ! i) = k"
  shows "\<exists>x. take 1 (filter (\<lambda>y. pv_key (vals y ! i) = k) (sort_key (sort_k i) rs)) = [x] \<and>
             find (\<lambda>y. pv_key (vals y ! i) = k \<and>
                        (\<forall>z\<in>set rs. pv_key (vals z ! i) = k \<longrightarrow>
                           num_opt (CodeDate_num z) \<le> num_opt (CodeDate_num y))) rs = Some x"
proof -
  let ?srt = "sort_key (sort_k i) rs"
  let ?pk = "\<lambda>y. pv_key (vals y ! i)"
  let ?g = "filter (\<lambda>y. ?pk y = k) ?srt"
  have "r \<in> set ?g" using assms by simp
  then obtain x g' where g: "?g = x # g'" by (cases ?g) auto
  have "x \<in> set ?g" by (simp add: g)
  then have xk: "?pk x = k" and xin: "x \<in> set rs" by simp_all
  have "sorted (map (sort_k i) ?g)"
    by (rule sorted_filter) (rule sorted_sort_key)
  then have le: "\<forall>y\<in>set ?g. sort_k i x \<le> sort_k i y"
    by (auto simp: g)
  have max: "num_opt (CodeDate_num z) \<le> num_opt (CodeDate_num x)"
    if "z \<in> set rs" "?pk z = k" for z
  proof -
    have "z \<in> set ?g" using that by simp
    then have "sort_k i x \<le> sort_k i z" using le by blast
    then show ?thesis using that xk
      by (auto simp: sort_k_def less_eq_desc_def less_desc_def)
  qed
  let ?Q = "\<lambda>y. sort_k i y = sort_k i x"
  let ?P = "\<lambda>y. ?pk y = k \<and> (\<forall>z\<in>set rs. ?pk z = k \<longrightarrow>
                 num_opt (CodeDate_num z) \<le> num_opt (CodeDate_num y))"
  have PQ: "?P y = ?Q y" if "y \<in> set rs" for y
  proof
    assume p: "?P y"
    then have "num_opt (CodeDate_num x) \<le> num_opt (CodeDate_num y)" using xin xk by blast
    moreover have "num_opt (CodeDate_num y) \<le> num_opt (CodeDate_num x)"
      using max that p by blast
    ultimately show "?Q y" using p xk by (simp add: sort_k_def)
  next
    assume q: "?Q y"
    then have "?pk y = k" "num_opt (CodeDate_num y) = num_opt (CodeDate_num x)"
      using xk by (auto simp: sort_k_def)
    then show "?P y" using max by auto
  qed
  have "filter ?Q ?srt = filter ?Q ?g"
    using xk by (auto simp: sort_k_def intro: filter_cong)
  also have "\<dots> = x # filter ?Q g'" by (simp add: g)
  finally have "filter ?Q rs = x # filter ?Q g'"
    by (simp add: sort_key_stable)
  then have "find ?Q rs = Some x" by (simp add: find_as_filter)
  moreover have "find ?P rs = find ?Q rs"
    by (rule find_cong) (use PQ in auto)
  ultimately show ?thesis using g by simp
qed

lemma flagged_first_of_key:
  fixes xs :: "('n::linorder) drow list"
  shows "filter (\<lambda>y. pv_key (vals y ! i) = k \<and> IsLatestPerPV y)
           (map2 (\<lambda>r d. flagged r (\<not> d)) xs
              (duplicated seen (map (\<lambda>r. pv_key (vals r ! i)) xs))) =
         map (\<lambda>r. flagged r True)
           (if k \<in> set seen then [] else take 1 (filter (\<lambda>x. pv_key (vals x ! i) = k) xs))"
proof (induction xs arbitrary: seen)
  case Nil
  then show ?case by simp
next
  case (Cons x xs)
  show ?case
  proof (cases "pv_key (vals x ! i) = k")
    case True
    then show ?thesis using Cons.IH [of "pv_key (vals x ! i) # seen"]
      by (auto simp: flagged_def)
  next
    case False
    then show ?thesis using Cons.IH [of "pv_key (vals x ! i) # seen"]
      by (auto simp: flagged_def)
  qed
qed

lemma truncate_flagged:
  fixes xs :: "('n::linorder) drow list"
  shows "length ds = length xs \<Longrightarrow>
         map drow.truncate (map2 (\<lambda>r d. flagged r (\<not> d)) xs ds) = xs"
proof (induction xs arbitrary: ds)
  case Nil
  then show ?case by simp
next
  case (Cons x xs)
  then show ?case by (cases ds) (auto simp: flagged_def drow.truncate_def)
qed

lemma sort_k_flagged:
  fixes xs :: "('n::linorder) drow list"
  shows "length ds = length xs \<Longrightarrow>
         map (sort_k i) (map2 (\<lambda>r d. flagged r (\<not> d)) xs ds) = map (sort_k i) xs"
proof (induction xs arbitrary: ds)
  case Nil
  then show ?case by simp
next
  case (Cons x xs)
  then show ?case by (cases ds) (auto simp: flagged_def sort_k_def)
qed

lemma latest_sample: "latest_per_pv_flag sample_dated = Inr sample_base"
  by code_simp

lemma positions_PVNumber: "positions REQUIRED_COLUMNS ''PVNumber'' = [0]"
  by code_simp

subsection \<open>The toggle and the order of the rows\<close>

lemma query_mask_keep [simp]:
  "query_mask engine py_float base (qr\<lparr>keep_latest_only := b\<rparr>) =
   query_mask engine py_float base qr"
  by (simp add: query_mask_def cong: sum.case_cong)

lemma latest_sorted:
  fixes df :: "('n::linorder) drow frame"
  assumes "latest_per_pv_flag df = Inr base" and "positions (columns base) ''PVNumber'' = [i]"
  shows "sorted (map (sort_k i) (rows base))"
proof -
  have c: "columns base = columns df"
    using assms(1) by (auto simp: latest_per_pv_flag_def Let_def split: list.splits)
  then have "rows base = map2 (\<lambda>r d. flagged r (\<not> d)) (sort_key (sort_k i) (rows df))
               (duplicated [] (map (\<lambda>r. pv_key (vals r ! i)) (sort_key (sort_k i) (rows df))))"
    using assms by (auto simp: latest_per_pv_flag_def Let_def split: list.splits)
  then show ?thesis
    by (simp only: sort_k_flagged length_duplicated length_map sorted_sort_key)
qed

lemma potato_filtered:
  "evaluate no_engine sample_float sample_base (potato_query\<lparr>keep_latest_only := False\<rparr>) =
   Inr potato_only"
  by code_simp

lemma potato_latest:
  "evaluate no_engine sample_float sample_base (potato_query\<lparr>keep_latest_only := True\<rparr>) =
   Inr potato_only"
  by code_simp

lemma all_latest:
  "evaluate no_engine sample_float sample_base
     \<lparr>query_text = [], basic_filters = [], adv_filters = [], min_str = [], max_str = [],
      keep_latest_only = True\<rparr> =
   Inr \<lparr>columns = REQUIRED_COLUMNS,
        rows =
          [\<lparr>vals = row_of ''P1'' ''Microchip Tray'' ''20240101'' ''Square'',
            CodeDate_num = Num 20240101, IsLatestPerPV = True\<rparr>,
           \<lparr>vals = row_of ''P2'' ''Cookie'' ''n/a'' ''round'',
            CodeDate_num = NumNaN, IsLatestPerPV = True\<rparr>]\<rparr>"
  by code_simp

text \<open>A table that is not sorted by \<^verbatim>\<open>PVNumber\<close>, under two queries.\<close>

lemma unsorted_square:
  "evaluate no_engine sample_float sample_unsorted
     \<lparr>query_text = [], basic_filters = [(''Shape'', [''round'', ''Square''])],
      adv_filters = [], min_str = [], max_str = [], keep_latest_only = False\<rparr> =
   Inr \<lparr>columns = REQUIRED_COLUMNS,
        rows =
          [\<lparr>vals = row_of ''P2'' ''Cookie'' ''n/a'' ''round'',
            CodeDate_num = NumNaN, IsLatestPerPV = True\<rparr>,
           \<lparr>vals = row_of ''P1'' ''Microchip Tray'' ''20240101'' ''Square'',
            CodeDate_num = Num 20240101, IsLatestPerPV = True\<rparr>]\<rparr>"
  by code_simp

lemma unsorted_latest:
  "evaluate no_engine sample_float sample_unsorted
     \<lparr>query_text = [], basic_filters = [], adv_filters = [], min_str = [], max_str = [],
      keep_latest_only = True\<rparr> =
   Inr \<lparr>columns = REQUIRED_COLUMNS,
        rows =
          [\<lparr>vals = row_of ''P1'' ''Microchip Tray'' ''20240101'' ''Square'',
            CodeDate_num = Num 20240101, IsLatestPerPV = True\<rparr>,
           \<lparr>vals = row_of ''P2'' ''Cookie'' ''n/a'' ''round'',
            CodeDate_num = NumNaN, IsLatestPerPV = True\<rparr>]\<rparr>"
  by code_simp

subsection \<open>The normaliser and the upload pipeline\<close>

lemma distinct_REQUIRED: "distinct REQUIRED_COLUMNS"
  by code_simp

lemma add_missing_columns:
  "distinct cs \<Longrightarrow>
   columns (add_missing cs df) = columns df @ filter (\<lambda>c. c \<notin> set (columns df)) cs"
proof (induction cs arbitrary: df)
  case Nil
  then show ?case by simp
next
  case (Cons c cs)
  have "filter (\<lambda>x. x \<noteq> c \<and> x \<notin> set (columns df)) cs =
        filter (\<lambda>x. x \<notin> set (columns df)) cs"
    using Cons.prems by (auto intro: filter_cong)
  then show ?case
    using Cons by (auto simp: add_column_def)
qed

lemma add_missing_rows:
  "distinct cs \<Longrightarrow>
   rows (add_missing cs df) =
   map (\<lambda>r. r\<lparr>vals := vals r @
                  replicate (length (filter (\<lambda>c. c \<notin> set (columns df)) cs)) NA\<rparr>) (rows df)"
proof (induction cs arbitrary: df)
  case Nil
  then show ?case by simp
next
  case (Cons c cs)
  have "filter (\<lambda>x. x \<noteq> c \<and> x \<notin> set (columns df)) cs =
        filter (\<lambda>x. x \<notin> set (columns df)) cs"
    using Cons.prems by (auto intro: filter_cong)
  then show ?case
    using Cons by (auto simp: add_column_def comp_def replicate_append_same)
qed

lemma positions_iff: "j \<in> set (positions cols c) \<longleftrightarrow> j < length cols \<and> cols ! j = c"
  by (auto simp: positions_def)

text \<open>\<^verbatim>\<open>_ensure_required\<close> never raises.\<close>

lemma ensure_required_Inr:
  "ensure_required df =
   Inr \<lparr>columns = map (\<lambda>i. columns (add_missing REQUIRED_COLUMNS df) ! i)
                    (concat (map (positions (columns (add_missing REQUIRED_COLUMNS df)))
                       REQUIRED_COLUMNS)),
        rows = map (\<lambda>r. r\<lparr>vals := map (\<lambda>i. vals r ! i)
                    (concat (map (positions (columns (add_missing REQUIRED_COLUMNS df)))
                       REQUIRED_COLUMNS))\<rparr>)
                 (rows (add_missing REQUIRED_COLUMNS df))\<rparr>"
proof -
  have "set REQUIRED_COLUMNS \<subseteq> set (columns (add_missing REQUIRED_COLUMNS df))"
    by (auto simp: add_missing_columns distinct_REQUIRED)
  then show ?thesis
    by (auto simp: ensure_required_def getitem_list_def Let_def)
qed

lemma concat_positions:
  assumes "j < length (concat (map (positions cols) labels))"
  shows "concat (map (positions cols) labels) ! j < length cols"
proof -
  have "concat (map (positions cols) labels) ! j \<in> set (concat (map (positions cols) labels))"
    using assms by (rule nth_mem)
  then show ?thesis by (auto simp: positions_iff)
qed

text \<open>
  A cell of the normalised table, under a label \<open>c\<close>: \<^verbatim>\<open>pd.NA\<close> when no header became
  \<open>c\<close>, a cell of the sheet otherwise.
\<close>

lemma ensure_required_cell:
  assumes e: "ensure_required df = Inr nf"
    and wf: "wf_frame df"
    and j: "j \<in> set (positions (columns nf) c)"
    and r: "r \<in> set (rows nf)"
  shows "(c \<notin> set (columns df) \<longrightarrow> vals r ! j = NA) \<and>
         (c \<in> set (columns df) \<longrightarrow> (\<exists>r0\<in>set (rows df). vals r ! j \<in> set (vals r0)))"
proof -
  let ?miss = "filter (\<lambda>c. c \<notin> set (columns df)) REQUIRED_COLUMNS"
  let ?cols = "columns df @ ?miss"
  let ?idx = "concat (map (positions ?cols) REQUIRED_COLUMNS)"
  have nf: "nf = \<lparr>columns = map (\<lambda>i. ?cols ! i) ?idx,
                  rows = map (\<lambda>r. r\<lparr>vals := map (\<lambda>i. vals r ! i) ?idx\<rparr>)
                           (map (\<lambda>r. r\<lparr>vals := vals r @ replicate (length ?miss) NA\<rparr>)
                              (rows df))\<rparr>"
    using e by (simp add: ensure_required_Inr add_missing_columns add_missing_rows
        distinct_REQUIRED)
  have jl: "j < length ?idx" and jc: "?cols ! (?idx ! j) = c"
    using j by (auto simp: nf positions_iff)
  let ?k = "?idx ! j"
  have kl: "?k < length ?cols" using jl by (rule concat_positions)
  obtain r0 where r0: "r0 \<in> set (rows df)"
    and rv: "vals r = map (\<lambda>i. (vals r0 @ replicate (length ?miss) NA) ! i) ?idx"
    using r by (auto simp: nf)
  have len: "length (vals r0) = length (columns df)"
    using wf r0 by (simp add: wf_frame_def list_all_iff)
  have cell: "vals r ! j = (vals r0 @ replicate (length ?miss) NA) ! ?k"
    using jl by (simp add: rv)
  show ?thesis
  proof (intro conjI impI)
    assume "c \<notin> set (columns df)"
    then have "\<not> ?k < length (columns df)"
      using jc by (auto simp: nth_append)
    then show "vals r ! j = NA"
      using kl by (simp add: cell nth_append len)
  next
    assume "c \<in> set (columns df)"
    then have nm: "c \<notin> set ?miss" by simp
    have "?k < length (columns df)"
    proof (rule ccontr)
      assume n: "\<not> ?k < length (columns df)"
      then have "?k - length (columns df) < length ?miss" using kl by simp
      then have "?miss ! (?k - length (columns df)) \<in> set ?miss" by (rule nth_mem)
      moreover have "?cols ! ?k = ?miss ! (?k - length (columns df))"
        using n by (simp add: nth_append)
      ultimately show False using jc nm by simp
    qed
    then have "vals r ! j \<in> set (vals r0)"
      by (simp add: cell nth_append len)
    then show "\<exists>r0\<in>set (rows df). vals r ! j \<in> set (vals r0)" using r0 by blast
  qed
qed

lemma positions_append:
  "positions (xs @ ys) c = positions xs c @ map (\<lambda>i. i + length xs) (positions ys c)"
proof -
  let ?P = "\<lambda>i. (xs @ ys) ! i = c"
  have "[0..<length xs + length ys] = [0..<length xs] @ [length xs..<length xs + length ys]"
    by (rule upt_add_eq_append) simp
  moreover have "[length xs..<length xs + length ys] =
                 map (\<lambda>i. i + length xs) [0..<length ys]"
    by (simp add: map_add_upt add.commute)
  ultimately have u: "[0..<length xs + length ys] =
           [0..<length xs] @ map (\<lambda>i. i + length xs) [0..<length ys]"
    by simp
  have a: "filter ?P [0..<length xs] = filter (\<lambda>i. xs ! i = c) [0..<length xs]"
    by (rule filter_cong) (simp_all add: nth_append)
  have b: "filter ?P (map (\<lambda>i. i + length xs) [0..<length ys]) =
           map (\<lambda>i. i + length xs) (filter (\<lambda>i. ys ! i = c) [0..<length ys])"
    by (simp add: filter_map comp_def nth_append)
  have "positions (xs @ ys) c = filter ?P [0..<length xs + length ys]"
    by (simp add: positions_def)
  also have "\<dots> = filter ?P [0..<length xs] @
                   filter ?P (map (\<lambda>i. i + length xs) [0..<length ys])"
    by (simp only: u filter_append)
  finally show ?thesis by (simp only: a b positions_def)
qed

lemma positions_empty: "c \<notin> set xs \<Longrightarrow> positions xs c = []"
  by (auto simp: positions_def filter_empty_conv)

lemma positions_nonempty: "c \<in> set xs \<Longrightarrow> positions xs c \<noteq> []"
proof -
  assume "c \<in> set xs"
  then obtain i where "i < length xs" "xs ! i = c" by (auto simp: in_set_conv_nth)
  then have "i \<in> set (positions xs c)" by (simp add: positions_iff)
  then show ?thesis by auto
qed

lemma filter_single:
  assumes "distinct L" and "x \<in> set L" and "P x" and "\<forall>y\<in>set L. P y \<longrightarrow> y = x"
  shows "filter P L = [x]"
  using assms
proof (induction L)
  case Nil
  then show ?case by simp
next
  case (Cons a L)
  show ?case
  proof (cases "a = x")
    case True
    have "x \<notin> set L" using Cons.prems(1) True by simp
    then have "\<forall>y\<in>set L. \<not> P y" using Cons.prems(4) by auto
    then have "filter P L = []" by (simp add: filter_empty_conv)
    then show ?thesis using True Cons.prems(3) by simp
  next
    case False
    have "\<not> P a" using Cons.prems(4) False by auto
    moreover have "filter P L = [x]"
    proof (rule Cons.IH)
      show "distinct L" using Cons.prems(1) by simp
      show "x \<in> set L" using Cons.prems(2) False by simp
      show "P x" by (rule Cons.prems(3))
      show "\<forall>y\<in>set L. P y \<longrightarrow> y = x" using Cons.prems(4) by simp
    qed
    ultimately show ?thesis by simp
  qed
qed

lemma positions_distinct:
  assumes "distinct xs" and "c \<in> set xs"
  shows "\<exists>k. positions xs c = [k]"
proof -
  obtain i where i: "i < length xs" "xs ! i = c"
    using assms(2) by (auto simp: in_set_conv_nth)
  have "filter (\<lambda>j. xs ! j = c) [0..<length xs] = [i]"
    by (rule filter_single) (use i assms(1) in \<open>auto simp: nth_eq_iff_index_eq\<close>)
  then show ?thesis by (auto simp: positions_def)
qed

lemma select_once:
  "\<forall>c\<in>set cs. \<exists>k. positions cols c = [k] \<Longrightarrow>
   map (\<lambda>i. cols ! i) (concat (map (positions cols) cs)) = cs"
proof (induction cs)
  case Nil
  then show ?case by simp
next
  case (Cons c cs)
  then obtain k where k: "positions cols c = [k]" by auto
  then have "k \<in> set (positions cols c)" by simp
  then have "cols ! k = c" by (simp add: positions_iff)
  then show ?case using Cons k by simp
qed

text \<open>
  When no required label stands twice among the headers, \<^verbatim>\<open>_ensure_required\<close> returns
  the required columns, each once, in their order.
\<close>

lemma ensure_required_schema:
  assumes "list_all (\<lambda>c. length (positions (columns df) c) \<le> 1) REQUIRED_COLUMNS"
  shows "\<exists>nf. ensure_required df = Inr nf \<and> columns nf = REQUIRED_COLUMNS"
proof -
  let ?miss = "filter (\<lambda>c. c \<notin> set (columns df)) REQUIRED_COLUMNS"
  let ?cols = "columns df @ ?miss"
  have one: "\<exists>k. positions ?cols c = [k]" if c: "c \<in> set REQUIRED_COLUMNS" for c
  proof (cases "c \<in> set (columns df)")
    case True
    have "length (positions (columns df) c) \<le> 1"
      using assms c by (simp add: list_all_iff)
    moreover have "positions (columns df) c \<noteq> []" using True by (rule positions_nonempty)
    ultimately obtain k where "positions (columns df) c = [k]"
      by (cases "positions (columns df) c") auto
    moreover have "positions ?miss c = []" using True by (simp add: positions_empty)
    ultimately show ?thesis by (simp add: positions_append)
  next
    case False
    then have "c \<in> set ?miss" using c by simp
    moreover have "distinct ?miss" using distinct_REQUIRED by simp
    ultimately obtain k where "positions ?miss c = [k]"
      using positions_distinct by blast
    moreover have "positions (columns df) c = []" using False by (rule positions_empty)
    ultimately show ?thesis by (simp add: positions_append)
  qed
  have "map (\<lambda>i. ?cols ! i) (concat (map (positions ?cols) REQUIRED_COLUMNS)) = REQUIRED_COLUMNS"
    by (rule select_once) (use one in blast)
  then show ?thesis
    by (simp add: ensure_required_Inr add_missing_columns distinct_REQUIRED)
qed

lemma normalize_schema:
  assumes "list_all (\<lambda>c. length (positions (columns (apply_header_aliases (strip_columns raw))) c) \<le> 1)
             REQUIRED_COLUMNS"
  shows "\<exists>nf. normalize raw = Inr nf \<and> columns nf = REQUIRED_COLUMNS"
  using ensure_required_schema [OF assms] by (simp add: normalize_def)

lemma parse_vals:
  assumes "parse_code_date_numeric parse df = Inr d"
  shows "columns d = columns df \<and> map vals (rows d) = map vals (rows df)"
  using assms
  by (auto simp: parse_code_date_numeric_def comp_def split: list.splits)

lemma vals_flagged:
  fixes xs :: "('n::linorder) drow list"
  shows "length ds = length xs \<Longrightarrow>
         map vals (map2 (\<lambda>r d. flagged r (\<not> d)) xs ds) = map vals xs"
proof (induction xs arbitrary: ds)
  case Nil
  then show ?case by simp
next
  case (Cons x xs)
  then show ?case by (cases ds) (auto simp: flagged_def)
qed

lemma latest_vals:
  fixes d :: "('n::linorder) drow frame"
  assumes "latest_per_pv_flag d = Inr base"
  shows "columns base = columns d \<and> vals ` set (rows base) = vals ` set (rows d)"
proof (cases "positions (columns d) ''PVNumber''")
  case Nil
  then have "base = \<lparr>columns = columns d, rows = map (\<lambda>r. flagged r False) (rows d)\<rparr>"
    using assms by (simp add: latest_per_pv_flag_def)
  then show ?thesis by (auto simp: flagged_def image_iff)
next
  case (Cons i rest)
  then have i: "positions (columns d) ''PVNumber'' = [i]"
    using assms by (cases rest) (simp_all add: latest_per_pv_flag_def)
  let ?srt = "sort_key (sort_k i) (rows d)"
  have b: "base = \<lparr>columns = columns d,
                 rows = map2 (\<lambda>r d. flagged r (\<not> d)) ?srt
                          (duplicated [] (map (\<lambda>r. pv_key (vals r ! i)) ?srt))\<rparr>"
    using assms i by (simp add: latest_per_pv_flag_def Let_def)
  have "map vals (rows base) = map vals ?srt"
    by (simp only: b frame.simps vals_flagged length_duplicated length_map)
  then have "set (map vals (rows base)) = set (map vals ?srt)" by (rule arg_cong)
  then have "vals ` set (rows base) = vals ` set (rows d)" by (simp only: set_map set_sort)
  then show ?thesis by (simp add: b)
qed

lemma header_rows:
  "rows (apply_header_aliases (strip_columns raw)) = rows raw"
  "wf_frame (apply_header_aliases (strip_columns raw)) = wf_frame raw"
  by (simp_all add: apply_header_aliases_def strip_columns_def wf_frame_def rename_columns_def)

lemma positions_CodeDate: "positions REQUIRED_COLUMNS ''CodeDate'' = [7]"
  by code_simp

lemma sample_number_texts:
  "sample_number ''n/a'' = None" "sample_number ''20230101'' = Some 20230101"
  "sample_number ''20240101'' = Some 20240101"
  by code_simp+

lemma parse_sample: "parse_code_date_numeric sample_number sample_sheet = Inr sample_dated"
  by code_simp

lemma load_sample: "load sample_number sample_sheet = Inr sample_base"
  by code_simp

subsection \<open>Missing cells and the texts the operators read\<close>

text \<open>The rows of a loaded table are as long as its list of labels.\<close>

lemma wf_ensure_required:
  assumes "ensure_required df = Inr nf"
  shows "wf_frame nf"
  using assms by (auto simp: ensure_required_Inr wf_frame_def list_all_iff)

lemma wf_loaded:
  fixes base :: "('n::linorder) rrow frame"
  assumes "load parse raw = Inr base"
  shows "wf_frame base"
proof -
  obtain nf d where nf: "normalize raw = Inr nf"
    and d: "parse_code_date_numeric parse nf = Inr d"
    and b: "latest_per_pv_flag d = Inr base"
    using assms by (auto simp: load_def split: sum.splits)
  have w: "wf_frame nf" using nf by (simp add: normalize_def wf_ensure_required)
  have "\<forall>v\<in>vals ` set (rows base). length v = length (columns base)"
  proof -
    have "vals ` set (rows base) = set (map vals (rows nf))"
      using latest_vals [OF b] parse_vals [OF d] by (metis list.set_map)
    moreover have "columns base = columns nf"
      using latest_vals [OF b] parse_vals [OF d] by simp
    ultimately show ?thesis using w by (auto simp: wf_frame_def list_all_iff)
  qed
  then show ?thesis by (auto simp: wf_frame_def list_all_iff)
qed

lemma read_excel_wf:
  assumes "list_all (\<lambda>cs. length cs = length headers) body"
  shows "wf_frame (read_excel headers body)"
  using assms by (simp add: wf_frame_def read_excel_def list_all_iff)

lemma read_excel_no_NA:
  "list_all (\<lambda>r. NA \<notin> set (vals r)) (rows (read_excel headers body))"
  by (auto simp: read_excel_def list_all_iff split: option.splits)

lemma loaded_cell:
  fixes base :: "('n::linorder) rrow frame"
  assumes "load parse raw = Inr base" and "wf_frame raw"
    and "list_all (\<lambda>r. NA \<notin> set (vals r)) (rows raw)"
    and "j \<in> set (positions (columns base) c)" and "r \<in> set (rows base)"
  shows "(c \<notin> set (columns (apply_header_aliases (strip_columns raw))) \<longrightarrow> vals r ! j = NA) \<and>
         (c \<in> set (columns (apply_header_aliases (strip_columns raw))) \<longrightarrow> vals r ! j \<noteq> NA)"
proof -
  let ?hdr = "apply_header_aliases (strip_columns raw)"
  obtain nf d where nf: "ensure_required ?hdr = Inr nf"
    and d: "parse_code_date_numeric parse nf = Inr d"
    and b: "latest_per_pv_flag d = Inr base"
    using assms(1) by (auto simp: load_def normalize_def split: sum.splits)
  have cols: "columns base = columns nf"
    using parse_vals [OF d] latest_vals [OF b] by simp
  have "vals r \<in> vals ` set (rows d)"
    using latest_vals [OF b] assms(5) by blast
  then have "vals r \<in> set (map vals (rows nf))"
    using parse_vals [OF d] by (metis list.set_map)
  then obtain r' where r': "r' \<in> set (rows nf)" "vals r' = vals r" by auto
  have j: "j \<in> set (positions (columns nf) c)" using assms(4) cols by simp
  have wf: "wf_frame ?hdr" using assms(2) by (simp add: header_rows)
  note cell = ensure_required_cell [OF nf wf j r'(1), unfolded r'(2) header_rows]
  show ?thesis
  proof (intro conjI impI)
    assume "c \<notin> set (columns ?hdr)"
    then show "vals r ! j = NA" using cell by blast
  next
    assume "c \<in> set (columns ?hdr)"
    then obtain r0 where "r0 \<in> set (rows raw)" "vals r ! j \<in> set (vals r0)"
      using cell by blast
    then show "vals r ! j \<noteq> NA"
      using assms(3) by (auto simp: list_all_iff)
  qed
qed

lemma render_placeholder:
  assumes "c \<notin> set hs \<longrightarrow> v = NA" and "c \<in> set hs \<longrightarrow> v \<noteq> NA"
  shows "render (placeholder hs c v) = render v"
  using assms by (cases v) (auto simp: render_def placeholder_def)

lemma with_placeholders_simps:
  "columns (with_placeholders hs df) = columns df"
  "length (rows (with_placeholders hs df)) = length (rows df)"
  by (simp_all add: with_placeholders_def)

lemma series_with_placeholders:
  assumes wf: "wf_frame df"
    and cell: "\<And>r j. r \<in> set (rows df) \<Longrightarrow> j < length (columns df) \<Longrightarrow>
                 render (placeholder hs (columns df ! j) (vals r ! j)) = render (vals r ! j)"
  shows "map_sum id astype_str (series (with_placeholders hs df) c) =
         map_sum id astype_str (series df c)"
proof (cases "positions (columns df) c")
  case Nil
  then show ?thesis by (simp add: series_def with_placeholders_simps)
next
  case (Cons i rest)
  show ?thesis
  proof (cases rest)
    case Nil
    have i: "i < length (columns df)"
      using Cons positions_iff [of i "columns df" c] by simp
    have "render (map2 (placeholder hs) (columns df) (vals r) ! i) = render (vals r ! i)"
      if r: "r \<in> set (rows df)" for r
    proof -
      have "length (vals r) = length (columns df)"
        using wf r by (simp add: wf_frame_def list_all_iff)
      then have "map2 (placeholder hs) (columns df) (vals r) ! i =
                 placeholder hs (columns df ! i) (vals r ! i)"
        using i by simp
      then show ?thesis using cell [OF r i] by simp
    qed
    then have "map (\<lambda>r. render (map2 (placeholder hs) (columns df) (vals r) ! i)) (rows df) =
               map (\<lambda>r. render (vals r ! i)) (rows df)"
      by simp
    then show ?thesis
      using Cons Nil
      by (simp add: series_def with_placeholders_def astype_str_def comp_def)
  next
    case (Cons k more)
    then show ?thesis using \<open>positions (columns df) c = i # rest\<close>
      by (simp add: series_def with_placeholders_simps)
  qed
qed

lemma series_text_cases:
  assumes "map_sum id astype_str (series df' c) = map_sum id astype_str (series df c)"
  shows "(\<exists>e. series df' c = Inl e \<and> series df c = Inl e) \<or>
         (\<exists>s' s. series df' c = Inr s' \<and> series df c = Inr s \<and> astype_str s' = astype_str s)"
  using assms by (cases "series df' c"; cases "series df c") simp_all

lemma global_loop_text:
  assumes "\<And>c. map_sum id astype_str (series df' c) = map_sum id astype_str (series df c)"
  shows "global_loop engine q df' cols mm = global_loop engine q df cols mm"
proof (induction cols arbitrary: mm)
  case Nil
  then show ?case by simp
next
  case (Cons col cols)
  from series_text_cases [OF assms [of col]] show ?case
  proof (elim disjE exE conjE)
    fix e
    assume "series df' col = Inl e" "series df col = Inl e"
    then show ?thesis by simp
  next
    fix s' s
    assume "series df' col = Inr s'" "series df col = Inr s" "astype_str s' = astype_str s"
    then show ?thesis by (simp add: Cons.IH cong: sum.case_cong)
  qed
qed

lemma basic_loop_text:
  assumes "\<And>c. map_sum id astype_str (series df' c) = map_sum id astype_str (series df c)"
  shows "basic_loop df' items m = basic_loop df items m"
proof (induction items arbitrary: m)
  case Nil
  then show ?case by simp
next
  case (Cons item items)
  obtain col selected where item: "item = (col, selected)" by (cases item)
  from series_text_cases [OF assms [of col]] show ?case
  proof (elim disjE exE conjE)
    fix e
    assume "series df' col = Inl e" "series df col = Inl e"
    then show ?thesis by (simp add: item Cons.IH)
  next
    fix s' s
    assume "series df' col = Inr s'" "series df col = Inr s" "astype_str s' = astype_str s"
    then show ?thesis by (simp add: item Cons.IH)
  qed
qed

lemma adv_loop_text:
  assumes "\<And>c. map_sum id astype_str (series df' c) = map_sum id astype_str (series df c)"
  shows "adv_loop engine df' items m = adv_loop engine df items m"
proof (induction items arbitrary: m)
  case Nil
  then show ?case by simp
next
  case (Cons item items)
  obtain col mode val where item: "item = (col, mode, val)" by (cases item)
  from series_text_cases [OF assms [of col]] show ?case
  proof (elim disjE exE conjE)
    fix e
    assume "series df' col = Inl e" "series df col = Inl e"
    then show ?thesis by (simp add: item)
  next
    fix s' s
    assume "series df' col = Inr s'" "series df col = Inr s" "astype_str s' = astype_str s"
    then show ?thesis by (simp add: item Cons.IH cong: sum.case_cong)
  qed
qed

lemma date_range_with_placeholders:
  "date_range_mask py_float mn mx (with_placeholders hs df) m = date_range_mask py_float mn mx df m"
proof -
  have "map CodeDate_num (rows (with_placeholders hs df)) = map CodeDate_num (rows df)"
    by (simp add: with_placeholders_def comp_def)
  then show ?thesis by (simp only: date_range_mask_def date_range_try_def)
qed

lemma blank_shape_upload:
  "load sample_number (read_excel [''PVNumber'', ''Shape''] [[Some ''P1'', None]]) =
   Inr blank_shape_base"
  "[''PVNumber'', ''Shape''] =
   columns (apply_header_aliases (strip_columns
     (read_excel [''PVNumber'', ''Shape''] [[Some ''P1'', None]])))"
  "blank_shape_filled = with_placeholders [''PVNumber'', ''Shape''] blank_shape_base"
  by code_simp+

lemma blank_shape_masks:
  "global_mask no_engine ''nan'' blank_shape_base [True] = Inr [True]"
  "basic_loop blank_shape_base [(''Size'', [''<NA>''])] [True] = Inr [True]"
  "adv_loop no_engine blank_shape_base [(''Shape'', ''equals'', ''NaN'')] [True] = Inr [True]"
  "query_mask no_engine sample_float blank_shape_base
     \<lparr>query_text = ''<na>'', basic_filters = [(''Shape'', [''nan''])],
      adv_filters = [(''Size'', ''in list'', ''<NA>; x'')], min_str = [], max_str = [],
      keep_latest_only = False\<rparr> = Inr [True]"
  by code_simp+

subsection \<open>The empty query\<close>

text \<open>
  C9. A query with no global term (the text is empty or white space), no selection in
  any basic filter, no advanced filter, no date range (one of the two texts is empty)
  and the toggle off returns the table it was given: the same labels, the same records,
  the same order; and no error.
\<close>

theorem evaluate_empty_query:
  assumes "strip (query_text qr) = []"
    and "list_all (\<lambda>(c, sel). sel = []) (basic_filters qr)"
    and "adv_filters qr = []"
    and "min_str qr = [] \<or> max_str qr = []"
    and "\<not> keep_latest_only qr"
  shows "evaluate engine py_float base qr = Inr base"
  using assms
  by (auto simp: evaluate_def query_mask_def global_mask_def lower_def
      basic_loop_no_selection date_range_mask_def getitem_mask_True)

theorem evaluate_empty_query_witness:
  "evaluate no_engine sample_float sample_base
     \<lparr>query_text = ''  '', basic_filters = [(''Shape'', []), (''Size'', [])],
      adv_filters = [], min_str = [], max_str = [], keep_latest_only = False\<rparr>
   = Inr sample_base"
  by (rule evaluate_empty_query) (simp_all add: strip_def is_space_def)

subsection \<open>The date range\<close>

text \<open>
  C6. The date range of a query. First part: when one of the two texts is empty, or
  \<^verbatim>\<open>float\<close> raises on one of them, the query evaluates as the same query without a date
  range; the constraint is dropped and no error comes from it. Second part: when both
  texts are not empty and \<^verbatim>\<open>float\<close> reads them as \<open>lo\<close> and \<open>hi\<close>, on a table whose
  \<^verbatim>\<open>CodeDate_num\<close> holds no \<^verbatim>\<open>pd.NA\<close> (every table that has a column \<^verbatim>\<open>CodeDate\<close>), the
  mask of the query is the mask of the query without a date range in conjunction with
  the date range mask, which is true at the records whose \<^verbatim>\<open>CodeDate_num\<close> is a number
  \<open>x\<close> with \<open>lo \<le> x \<le> hi\<close>, both bounds being numbers; so a record whose
  \<^verbatim>\<open>CodeDate_num\<close> is missing fails it. Third part: with the toggle off the result is
  then the result of the query without a date range, narrowed to these records.
\<close>

theorem date_range_constraint:
  "(min_str qr = [] \<or> max_str qr = [] \<or> py_float (min_str qr) = None \<or>
    py_float (max_str qr) = None \<longrightarrow>
      evaluate engine py_float base qr =
      evaluate engine py_float base (qr\<lparr>min_str := [], max_str := []\<rparr>)) \<and>
   (min_str qr \<noteq> [] \<and> max_str qr \<noteq> [] \<and>
    py_float (min_str qr) = Some lo \<and> py_float (max_str qr) = Some hi \<and>
    NumNA \<notin> set (map CodeDate_num (rows base)) \<and>
    query_mask engine py_float base (qr\<lparr>min_str := [], max_str := []\<rparr>) = Inr m \<longrightarrow>
      query_mask engine py_float base qr =
      Inr (mask_and m
             (map (\<lambda>r. \<exists>a b x. lo = Some a \<and> hi = Some b \<and>
                               CodeDate_num r = Num x \<and> a \<le> x \<and> x \<le> b) (rows base)))) \<and>
   (min_str qr \<noteq> [] \<and> max_str qr \<noteq> [] \<and>
    py_float (min_str qr) = Some lo \<and> py_float (max_str qr) = Some hi \<and>
    NumNA \<notin> set (map CodeDate_num (rows base)) \<and> \<not> keep_latest_only qr \<and>
    evaluate engine py_float base (qr\<lparr>min_str := [], max_str := []\<rparr>) = Inr res \<longrightarrow>
      evaluate engine py_float base qr =
      Inr (res\<lparr>rows := filter (\<lambda>r. \<exists>a b x. lo = Some a \<and> hi = Some b \<and>
                                       CodeDate_num r = Num x \<and> a \<le> x \<and> x \<le> b)
                                (rows res)\<rparr>))"
proof (intro conjI impI)
  assume "min_str qr = [] \<or> max_str qr = [] \<or> py_float (min_str qr) = None \<or>
          py_float (max_str qr) = None"
  then show "evaluate engine py_float base qr =
             evaluate engine py_float base (qr\<lparr>min_str := [], max_str := []\<rparr>)"
    by (simp add: evaluate_def query_mask_date_dropped [of qr py_float engine base]
        split: sum.splits)
next
  assume a: "min_str qr \<noteq> [] \<and> max_str qr \<noteq> [] \<and>
    py_float (min_str qr) = Some lo \<and> py_float (max_str qr) = Some hi \<and>
    NumNA \<notin> set (map CodeDate_num (rows base)) \<and>
    query_mask engine py_float base (qr\<lparr>min_str := [], max_str := []\<rparr>) = Inr m"
  then show "query_mask engine py_float base qr =
      Inr (mask_and m
             (map (\<lambda>r. \<exists>a b x. lo = Some a \<and> hi = Some b \<and>
                               CodeDate_num r = Num x \<and> a \<le> x \<and> x \<le> b) (rows base)))"
    by (simp add: query_mask_date_range [of qr py_float lo hi base engine])
next
  assume a: "min_str qr \<noteq> [] \<and> max_str qr \<noteq> [] \<and>
    py_float (min_str qr) = Some lo \<and> py_float (max_str qr) = Some hi \<and>
    NumNA \<notin> set (map CodeDate_num (rows base)) \<and> \<not> keep_latest_only qr \<and>
    evaluate engine py_float base (qr\<lparr>min_str := [], max_str := []\<rparr>) = Inr res"
  show "evaluate engine py_float base qr =
      Inr (res\<lparr>rows := filter (\<lambda>r. \<exists>a b x. lo = Some a \<and> hi = Some b \<and>
                                       CodeDate_num r = Num x \<and> a \<le> x \<and> x \<le> b)
                                (rows res)\<rparr>)"
    by (rule evaluate_refine [where qr' = "qr\<lparr>min_str := [], max_str := []\<rparr>"])
       (use a in \<open>simp_all add: query_mask_date_range\<close>)
qed

theorem date_range_constraint_witness:
  "sample_float ''abc'' = None \<and>
   evaluate no_engine sample_float sample_base
     \<lparr>query_text = [], basic_filters = [], adv_filters = [], min_str = ''abc'',
      max_str = ''20230601'', keep_latest_only = True\<rparr> =
   evaluate no_engine sample_float sample_base
     \<lparr>query_text = [], basic_filters = [], adv_filters = [], min_str = [],
      max_str = [], keep_latest_only = True\<rparr> \<and>
   sample_float ''20230101'' = Some (Some 20230101) \<and>
   sample_float ''20230601'' = Some (Some 20230601) \<and>
   NumNA \<notin> set (map CodeDate_num (rows sample_base)) \<and>
   query_mask no_engine sample_float sample_base
     \<lparr>query_text = [], basic_filters = [], adv_filters = [], min_str = ''20230101'',
      max_str = ''20230601'', keep_latest_only = True\<rparr> = Inr [False, True, False] \<and>
   evaluate no_engine sample_float sample_base
     \<lparr>query_text = [], basic_filters = [], adv_filters = [], min_str = ''20230101'',
      max_str = ''20230601'', keep_latest_only = False\<rparr> =
   Inr \<lparr>columns = REQUIRED_COLUMNS,
        rows = [\<lparr>vals = row_of ''P1'' ''Potato Chips'' ''20230101'' ''Round'',
                 CodeDate_num = Num 20230101, IsLatestPerPV = False\<rparr>]\<rparr>"
proof -
  have f: "sample_float ''abc'' = None" "sample_float ''20230101'' = Some (Some 20230101)"
    "sample_float ''20230601'' = Some (Some 20230601)"
    by code_simp+
  have n: "NumNA \<notin> set (map CodeDate_num (rows sample_base))"
    by (simp add: sample_base_def)
  show ?thesis
    using date_range_constraint
      [where qr = "\<lparr>query_text = [], basic_filters = [], adv_filters = [], min_str = ''abc'',
          max_str = ''20230601'', keep_latest_only = True\<rparr>"
        and py_float = sample_float and engine = no_engine and base = sample_base]
      date_range_constraint
      [where qr = "\<lparr>query_text = [], basic_filters = [], adv_filters = [],
          min_str = ''20230101'', max_str = ''20230601'', keep_latest_only = True\<rparr>"
        and py_float = sample_float and engine = no_engine and base = sample_base
        and lo = "Some 20230101" and hi = "Some 20230601" and m = "[True, True, True]"]
      date_range_constraint
      [where qr = "\<lparr>query_text = [], basic_filters = [], adv_filters = [],
          min_str = ''20230101'', max_str = ''20230601'', keep_latest_only = False\<rparr>"
        and py_float = sample_float and engine = no_engine and base = sample_base
        and lo = "Some 20230101" and hi = "Some 20230601" and res = sample_base]
      f n evaluate_sample_no_filter mask_sample_no_filter
    by (simp add: sample_base_def mask_and_def)
qed

subsection \<open>What the filters compare\<close>

text \<open>
  C10. For a column that stands once in the table, with the toggle off. A basic filter
  with a selection that is not empty, added to a query, narrows the result to the
  records whose rendered value in the column is one of the selected values. An in-list
  filter narrows it to the records whose rendered value is one of the entries of the
  operand (split at the semicolons, stripped, the empty ones dropped). Both compare the
  texts as they are, letter case included. An equals filter narrows the result to the
  records whose rendered value equals the operand once both are in lower case; a
  contains filter whose operand has no pattern operator narrows it to the records whose
  rendered value, in lower case, has the operand in lower case as a contiguous part.
  The filter may stand anywhere among the other filters of its kind.
\<close>

theorem filters_compare_rendered_text:
  assumes "\<not> keep_latest_only qr" and "positions (columns base) col = [i]"
  shows
   "(basic_filters qr = bfa @ (col, sel) # bfb \<and> sel \<noteq> [] \<and>
     evaluate engine py_float base (qr\<lparr>basic_filters := bfa @ bfb\<rparr>) = Inr res \<longrightarrow>
       evaluate engine py_float base qr =
       Inr (res\<lparr>rows := filter (\<lambda>r. render (vals r ! i) \<in> set sel) (rows res)\<rparr>)) \<and>
    (adv_filters qr = afa @ (col, ''in list'', val) # afb \<and>
     evaluate engine py_float base (qr\<lparr>adv_filters := afa @ afb\<rparr>) = Inr res \<longrightarrow>
       evaluate engine py_float base qr =
       Inr (res\<lparr>rows := filter (\<lambda>r. render (vals r ! i) \<in> set (in_list_items val))
                                (rows res)\<rparr>)) \<and>
    (adv_filters qr = afa @ (col, ''equals'', val) # afb \<and>
     evaluate engine py_float base (qr\<lparr>adv_filters := afa @ afb\<rparr>) = Inr res \<longrightarrow>
       evaluate engine py_float base qr =
       Inr (res\<lparr>rows := filter (\<lambda>r. lower (render (vals r ! i)) = lower val) (rows res)\<rparr>)) \<and>
    (adv_filters qr = afa @ (col, ''contains'', val) # afb \<and> literal_pattern val \<and>
     evaluate engine py_float base (qr\<lparr>adv_filters := afa @ afb\<rparr>) = Inr res \<longrightarrow>
       evaluate engine py_float base qr =
       Inr (res\<lparr>rows := filter (\<lambda>r. sublist (lower val) (lower (render (vals r ! i))))
                                (rows res)\<rparr>))"
proof (intro conjI impI)
  assume a: "basic_filters qr = bfa @ (col, sel) # bfb \<and> sel \<noteq> [] \<and>
     evaluate engine py_float base (qr\<lparr>basic_filters := bfa @ bfb\<rparr>) = Inr res"
  show "evaluate engine py_float base qr =
       Inr (res\<lparr>rows := filter (\<lambda>r. render (vals r ! i) \<in> set sel) (rows res)\<rparr>)"
    by (rule evaluate_refine [where qr' = "qr\<lparr>basic_filters := bfa @ bfb\<rparr>"])
       (use a assms in \<open>simp_all add: query_mask_basic\<close>)
next
  assume a: "adv_filters qr = afa @ (col, ''in list'', val) # afb \<and>
     evaluate engine py_float base (qr\<lparr>adv_filters := afa @ afb\<rparr>) = Inr res"
  show "evaluate engine py_float base qr =
       Inr (res\<lparr>rows := filter (\<lambda>r. render (vals r ! i) \<in> set (in_list_items val))
                                (rows res)\<rparr>)"
    by (rule evaluate_refine [where qr' = "qr\<lparr>adv_filters := afa @ afb\<rparr>"])
       (use a assms in \<open>simp_all add: query_mask_adv_in_list\<close>)
next
  assume a: "adv_filters qr = afa @ (col, ''equals'', val) # afb \<and>
     evaluate engine py_float base (qr\<lparr>adv_filters := afa @ afb\<rparr>) = Inr res"
  show "evaluate engine py_float base qr =
       Inr (res\<lparr>rows := filter (\<lambda>r. lower (render (vals r ! i)) = lower val) (rows res)\<rparr>)"
    by (rule evaluate_refine [where qr' = "qr\<lparr>adv_filters := afa @ afb\<rparr>"])
       (use a assms in \<open>simp_all add: query_mask_adv_equals\<close>)
next
  assume a: "adv_filters qr = afa @ (col, ''contains'', val) # afb \<and> literal_pattern val \<and>
     evaluate engine py_float base (qr\<lparr>adv_filters := afa @ afb\<rparr>) = Inr res"
  show "evaluate engine py_float base qr =
       Inr (res\<lparr>rows := filter (\<lambda>r. sublist (lower val) (lower (render (vals r ! i))))
                                (rows res)\<rparr>)"
    by (rule evaluate_refine [where qr' = "qr\<lparr>adv_filters := afa @ afb\<rparr>"])
       (use a assms in \<open>simp_all add: query_mask_adv_contains\<close>)
qed

theorem filters_compare_rendered_text_witness:
  "positions (columns sample_base) ''Shape'' = [10] \<and>
   evaluate no_engine sample_float sample_base
     \<lparr>query_text = [], basic_filters = [(''Shape'', [''round''])], adv_filters = [],
      min_str = [], max_str = [], keep_latest_only = False\<rparr> =
   Inr \<lparr>columns = REQUIRED_COLUMNS,
        rows = [\<lparr>vals = row_of ''P2'' ''Cookie'' ''n/a'' ''round'',
                 CodeDate_num = NumNaN, IsLatestPerPV = True\<rparr>]\<rparr> \<and>
   evaluate no_engine sample_float sample_base
     \<lparr>query_text = [], basic_filters = [],
      adv_filters = [(''Shape'', ''in list'', ''round; Square'')],
      min_str = [], max_str = [], keep_latest_only = False\<rparr> =
   Inr \<lparr>columns = REQUIRED_COLUMNS,
        rows = [\<lparr>vals = row_of ''P1'' ''Microchip Tray'' ''20240101'' ''Square'',
                 CodeDate_num = Num 20240101, IsLatestPerPV = True\<rparr>,
                \<lparr>vals = row_of ''P2'' ''Cookie'' ''n/a'' ''round'',
                 CodeDate_num = NumNaN, IsLatestPerPV = True\<rparr>]\<rparr> \<and>
   evaluate no_engine sample_float sample_base
     \<lparr>query_text = [], basic_filters = [],
      adv_filters = [(''Shape'', ''equals'', ''ROUND'')],
      min_str = [], max_str = [], keep_latest_only = False\<rparr> =
   Inr \<lparr>columns = REQUIRED_COLUMNS,
        rows = [\<lparr>vals = row_of ''P1'' ''Potato Chips'' ''20230101'' ''Round'',
                 CodeDate_num = Num 20230101, IsLatestPerPV = False\<rparr>,
                \<lparr>vals = row_of ''P2'' ''Cookie'' ''n/a'' ''round'',
                 CodeDate_num = NumNaN, IsLatestPerPV = True\<rparr>]\<rparr> \<and>
   literal_pattern ''OUN'' \<and>
   evaluate no_engine sample_float sample_base
     \<lparr>query_text = [], basic_filters = [],
      adv_filters = [(''Shape'', ''contains'', ''OUN'')],
      min_str = [], max_str = [], keep_latest_only = False\<rparr> =
   Inr \<lparr>columns = REQUIRED_COLUMNS,
        rows = [\<lparr>vals = row_of ''P1'' ''Potato Chips'' ''20230101'' ''Round'',
                 CodeDate_num = Num 20230101, IsLatestPerPV = False\<rparr>,
                \<lparr>vals = row_of ''P2'' ''Cookie'' ''n/a'' ''round'',
                 CodeDate_num = NumNaN, IsLatestPerPV = True\<rparr>]\<rparr>"
proof -
  have p: "positions (columns sample_base) ''Shape'' = [10]"
    by (simp add: sample_base_def positions_Shape)
  have l: "literal_pattern ''OUN''"
    by code_simp
  have items: "in_list_items ''round; Square'' = [''round'', ''Square'']"
    by code_simp
  have low: "lower ''ROUND'' = ''round''" "lower ''Round'' = ''round''"
    "lower ''round'' = ''round''" "lower ''Square'' = ''square''" "lower ''OUN'' = ''oun''"
    by code_simp+
  have sub: "sublist ''oun'' ''round''" "\<not> sublist ''oun'' ''square''"
    by code_simp+
  note t = filters_compare_rendered_text
    [where base = sample_base and col = "''Shape''" and i = 10 and engine = no_engine
      and py_float = sample_float and res = sample_base and bfa = "[]" and bfb = "[]"
      and afa = "[]" and afb = "[]", OF _ p]
  have "evaluate no_engine sample_float sample_base
     \<lparr>query_text = [], basic_filters = [(''Shape'', [''round''])], adv_filters = [],
      min_str = [], max_str = [], keep_latest_only = False\<rparr> =
   Inr \<lparr>columns = REQUIRED_COLUMNS,
        rows = [\<lparr>vals = row_of ''P2'' ''Cookie'' ''n/a'' ''round'',
                 CodeDate_num = NumNaN, IsLatestPerPV = True\<rparr>]\<rparr>"
    using t [where qr = "\<lparr>query_text = [], basic_filters = [(''Shape'', [''round''])],
        adv_filters = [], min_str = [], max_str = [], keep_latest_only = False\<rparr>"
        and sel = "[''round'']"] evaluate_sample_no_filter
    by (simp add: sample_base_def row_of_def render_def)
  moreover have "evaluate no_engine sample_float sample_base
     \<lparr>query_text = [], basic_filters = [],
      adv_filters = [(''Shape'', ''in list'', ''round; Square'')],
      min_str = [], max_str = [], keep_latest_only = False\<rparr> =
   Inr \<lparr>columns = REQUIRED_COLUMNS,
        rows = [\<lparr>vals = row_of ''P1'' ''Microchip Tray'' ''20240101'' ''Square'',
                 CodeDate_num = Num 20240101, IsLatestPerPV = True\<rparr>,
                \<lparr>vals = row_of ''P2'' ''Cookie'' ''n/a'' ''round'',
                 CodeDate_num = NumNaN, IsLatestPerPV = True\<rparr>]\<rparr>"
    using t [where qr = "\<lparr>query_text = [], basic_filters = [],
        adv_filters = [(''Shape'', ''in list'', ''round; Square'')],
        min_str = [], max_str = [], keep_latest_only = False\<rparr>"
        and val = "''round; Square''"] evaluate_sample_no_filter
    by (simp add: sample_base_def row_of_def render_def items)
  moreover have "evaluate no_engine sample_float sample_base
     \<lparr>query_text = [], basic_filters = [],
      adv_filters = [(''Shape'', ''equals'', ''ROUND'')],
      min_str = [], max_str = [], keep_latest_only = False\<rparr> =
   Inr \<lparr>columns = REQUIRED_COLUMNS,
        rows = [\<lparr>vals = row_of ''P1'' ''Potato Chips'' ''20230101'' ''Round'',
                 CodeDate_num = Num 20230101, IsLatestPerPV = False\<rparr>,
                \<lparr>vals = row_of ''P2'' ''Cookie'' ''n/a'' ''round'',
                 CodeDate_num = NumNaN, IsLatestPerPV = True\<rparr>]\<rparr>"
    using t [where qr = "\<lparr>query_text = [], basic_filters = [],
        adv_filters = [(''Shape'', ''equals'', ''ROUND'')],
        min_str = [], max_str = [], keep_latest_only = False\<rparr>"
        and val = "''ROUND''"] evaluate_sample_no_filter
    by (simp add: sample_base_def row_of_def render_def low)
  moreover have "evaluate no_engine sample_float sample_base
     \<lparr>query_text = [], basic_filters = [],
      adv_filters = [(''Shape'', ''contains'', ''OUN'')],
      min_str = [], max_str = [], keep_latest_only = False\<rparr> =
   Inr \<lparr>columns = REQUIRED_COLUMNS,
        rows = [\<lparr>vals = row_of ''P1'' ''Potato Chips'' ''20230101'' ''Round'',
                 CodeDate_num = Num 20230101, IsLatestPerPV = False\<rparr>,
                \<lparr>vals = row_of ''P2'' ''Cookie'' ''n/a'' ''round'',
                 CodeDate_num = NumNaN, IsLatestPerPV = True\<rparr>]\<rparr>"
    using t [where qr = "\<lparr>query_text = [], basic_filters = [],
        adv_filters = [(''Shape'', ''contains'', ''OUN'')],
        min_str = [], max_str = [], keep_latest_only = False\<rparr>"
        and val = "''OUN''"] evaluate_sample_no_filter l
    by (simp add: sample_base_def row_of_def render_def low sub)
  ultimately show ?thesis using p l by simp
qed

subsection \<open>The operand of a search is a pattern\<close>

text \<open>
  C4, on the sample table. The contains filter with the operand \<^verbatim>\<open>o.k\<close> on the column
  \<^verbatim>\<open>Description\<close> keeps the record \<^verbatim>\<open>Cookie\<close>, and so does the global search for
  \<^verbatim>\<open>O.K\<close>; yet no rendered value of that record, in lower case, has \<^verbatim>\<open>o.k\<close> as a
  contiguous part: the dot was read as the operator that matches any character.
\<close>

theorem search_operand_is_pattern:
  "evaluate no_engine sample_float sample_base
     \<lparr>query_text = [], basic_filters = [],
      adv_filters = [(''Description'', ''contains'', ''o.k'')],
      min_str = [], max_str = [], keep_latest_only = False\<rparr> =
   Inr \<lparr>columns = REQUIRED_COLUMNS,
        rows = [\<lparr>vals = row_of ''P2'' ''Cookie'' ''n/a'' ''round'',
                 CodeDate_num = NumNaN, IsLatestPerPV = True\<rparr>]\<rparr> \<and>
   evaluate no_engine sample_float sample_base
     \<lparr>query_text = ''O.K'', basic_filters = [], adv_filters = [],
      min_str = [], max_str = [], keep_latest_only = False\<rparr> =
   Inr \<lparr>columns = REQUIRED_COLUMNS,
        rows = [\<lparr>vals = row_of ''P2'' ''Cookie'' ''n/a'' ''round'',
                 CodeDate_num = NumNaN, IsLatestPerPV = True\<rparr>]\<rparr> \<and>
   list_all (\<lambda>c. \<not> sublist ''o.k'' (lower (render c)))
     (row_of ''P2'' ''Cookie'' ''n/a'' ''round'')"
  by code_simp

subsection \<open>The latest flag\<close>

text \<open>
  C2. On a table with one column \<^verbatim>\<open>PVNumber\<close>, \<^verbatim>\<open>_latest_per_pv_flag\<close> does not fail;
  its rows are the rows of the table in another order, each with its flag. For every
  record \<open>r\<close> of the table, among the result's records with the \<^verbatim>\<open>PVNumber\<close> of \<open>r\<close>
  exactly one is flagged. It is the record \<open>x\<close> that comes first, in the order of the
  input, among the records of the group whose \<^verbatim>\<open>CodeDate_num\<close> is greatest in the group,
  where a missing value is below every number (the order of \<open>option\<close>: \<open>None\<close> is
  least). When no record of the group has a number, \<open>x\<close> is the first record of the
  group in the order of the input. Records whose \<^verbatim>\<open>PVNumber\<close> is missing are one group.
\<close>

theorem latest_flag_per_group:
  fixes df :: "('n::linorder) drow frame"
  assumes "positions (columns df) ''PVNumber'' = [i]"
  shows "\<exists>out. latest_per_pv_flag df = Inr out \<and> columns out = columns df \<and>
           mset (map drow.truncate (rows out)) = mset (rows df) \<and>
           (\<forall>r\<in>set (rows df). \<exists>x.
              filter (\<lambda>y. pv_key (vals y ! i) = pv_key (vals r ! i) \<and> IsLatestPerPV y)
                (rows out) = [flagged x True] \<and>
              find (\<lambda>y. pv_key (vals y ! i) = pv_key (vals r ! i) \<and>
                      (\<forall>z\<in>set (rows df). pv_key (vals z ! i) = pv_key (vals r ! i) \<longrightarrow>
                         num_opt (CodeDate_num z) \<le> num_opt (CodeDate_num y)))
                (rows df) = Some x \<and>
              ((\<forall>z\<in>set (rows df). pv_key (vals z ! i) = pv_key (vals r ! i) \<longrightarrow>
                  num_opt (CodeDate_num z) = None) \<longrightarrow>
               find (\<lambda>y. pv_key (vals y ! i) = pv_key (vals r ! i)) (rows df) = Some x))"
proof -
  let ?srt = "sort_key (sort_k i) (rows df)"
  let ?dup = "duplicated [] (map (\<lambda>r. pv_key (vals r ! i)) ?srt)"
  let ?out = "\<lparr>columns = columns df, rows = map2 (\<lambda>r d. flagged r (\<not> d)) ?srt ?dup\<rparr>"
  have out: "latest_per_pv_flag df = Inr ?out"
    using assms by (simp add: latest_per_pv_flag_def Let_def)
  have perm: "mset (map drow.truncate (rows ?out)) = mset (rows df)"
    by (simp only: frame.simps truncate_flagged length_duplicated length_map mset_sort)
  have grp: "\<exists>x. filter (\<lambda>y. pv_key (vals y ! i) = pv_key (vals r ! i) \<and> IsLatestPerPV y)
                (rows ?out) = [flagged x True] \<and>
              find (\<lambda>y. pv_key (vals y ! i) = pv_key (vals r ! i) \<and>
                      (\<forall>z\<in>set (rows df). pv_key (vals z ! i) = pv_key (vals r ! i) \<longrightarrow>
                         num_opt (CodeDate_num z) \<le> num_opt (CodeDate_num y)))
                (rows df) = Some x \<and>
              ((\<forall>z\<in>set (rows df). pv_key (vals z ! i) = pv_key (vals r ! i) \<longrightarrow>
                  num_opt (CodeDate_num z) = None) \<longrightarrow>
               find (\<lambda>y. pv_key (vals y ! i) = pv_key (vals r ! i)) (rows df) = Some x)"
    if r: "r \<in> set (rows df)" for r
  proof -
    obtain x where x:
      "take 1 (filter (\<lambda>y. pv_key (vals y ! i) = pv_key (vals r ! i)) ?srt) = [x]"
      "find (\<lambda>y. pv_key (vals y ! i) = pv_key (vals r ! i) \<and>
                      (\<forall>z\<in>set (rows df). pv_key (vals z ! i) = pv_key (vals r ! i) \<longrightarrow>
                         num_opt (CodeDate_num z) \<le> num_opt (CodeDate_num y)))
                (rows df) = Some x"
      using sorted_group_head [OF r refl, of i] by blast
    have "filter (\<lambda>y. pv_key (vals y ! i) = pv_key (vals r ! i) \<and> IsLatestPerPV y)
                (rows ?out) = [flagged x True]"
      using x(1) by (simp add: flagged_first_of_key)
    moreover have "find (\<lambda>y. pv_key (vals y ! i) = pv_key (vals r ! i)) (rows df) = Some x"
      if "\<forall>z\<in>set (rows df). pv_key (vals z ! i) = pv_key (vals r ! i) \<longrightarrow>
                  num_opt (CodeDate_num z) = None"
    proof -
      have "find (\<lambda>y. pv_key (vals y ! i) = pv_key (vals r ! i)) (rows df) =
            find (\<lambda>y. pv_key (vals y ! i) = pv_key (vals r ! i) \<and>
                      (\<forall>z\<in>set (rows df). pv_key (vals z ! i) = pv_key (vals r ! i) \<longrightarrow>
                         num_opt (CodeDate_num z) \<le> num_opt (CodeDate_num y)))
                (rows df)"
        by (rule find_cong) (use that in auto)
      then show ?thesis using x(2) by simp
    qed
    ultimately show ?thesis using x(2) by blast
  qed
  show ?thesis
    using out perm grp by (intro exI [of _ ?out]) simp
qed

theorem latest_flag_per_group_witness:
  "positions (columns sample_dated) ''PVNumber'' = [0] \<and>
   latest_per_pv_flag sample_dated = Inr sample_base \<and>
   filter (\<lambda>y. pv_key (vals y ! 0) = pv_key (Str ''P1'') \<and> IsLatestPerPV y)
     (rows sample_base) =
   [flagged \<lparr>vals = row_of ''P1'' ''Microchip Tray'' ''20240101'' ''Square'',
             CodeDate_num = Num 20240101\<rparr> True] \<and>
   find (\<lambda>y. pv_key (vals y ! 0) = pv_key (Str ''P1'') \<and>
           (\<forall>z\<in>set (rows sample_dated). pv_key (vals z ! 0) = pv_key (Str ''P1'') \<longrightarrow>
              num_opt (CodeDate_num z) \<le> num_opt (CodeDate_num y)))
     (rows sample_dated) =
   Some \<lparr>vals = row_of ''P1'' ''Microchip Tray'' ''20240101'' ''Square'',
         CodeDate_num = Num 20240101\<rparr>"
proof -
  let ?potato = "\<lparr>vals = row_of ''P1'' ''Potato Chips'' ''20230101'' ''Round'',
                  CodeDate_num = Num (20230101::int)\<rparr>"
  let ?chip = "\<lparr>vals = row_of ''P1'' ''Microchip Tray'' ''20240101'' ''Square'',
                CodeDate_num = Num (20240101::int)\<rparr>"
  have p: "positions (columns sample_dated) ''PVNumber'' = [0]"
    by (simp add: sample_dated_def positions_PVNumber)
  have r: "?potato \<in> set (rows sample_dated)"
    by (simp add: sample_dated_def)
  have k: "pv_key (vals ?potato ! 0) = pv_key (Str ''P1'')"
    by (simp add: row_of_def)
  have f: "filter (\<lambda>y. pv_key (vals y ! 0) = pv_key (Str ''P1'') \<and> IsLatestPerPV y)
             (rows sample_base) = [flagged ?chip True]"
    by (simp add: sample_base_def row_of_def pv_key_def flagged_def)
  from latest_flag_per_group [OF p] latest_sample r k obtain x where
    "filter (\<lambda>y. pv_key (vals y ! 0) = pv_key (Str ''P1'') \<and> IsLatestPerPV y)
       (rows sample_base) = [flagged x True]"
    "find (\<lambda>y. pv_key (vals y ! 0) = pv_key (Str ''P1'') \<and>
           (\<forall>z\<in>set (rows sample_dated). pv_key (vals z ! 0) = pv_key (Str ''P1'') \<longrightarrow>
              num_opt (CodeDate_num z) \<le> num_opt (CodeDate_num y)))
       (rows sample_dated) = Some x"
    by fastforce
  moreover from this f have "x = ?chip"
    by (cases x) (simp add: flagged_def)
  ultimately show ?thesis using p latest_sample f by simp
qed

subsection \<open>Keeping the latest record of each key\<close>

text \<open>
  C1, as the code has it. Let \<open>filtered\<close> be the records that satisfy the mask (the
  result with the toggle off), on a table with one column \<^verbatim>\<open>PVNumber\<close>. With the toggle
  on, the evaluation does not fail and returns records of \<open>filtered\<close>, one for each
  \<^verbatim>\<open>PVNumber\<close> that occurs in \<open>filtered\<close>: the record that comes first in \<open>filtered\<close>
  among those of its key whose \<^verbatim>\<open>CodeDate_num\<close> is greatest among the records of
  \<open>filtered\<close> with that key. The latest record is chosen among the records that
  satisfy the mask; the column \<^verbatim>\<open>IsLatestPerPV\<close> is not read.
\<close>

theorem keep_latest_among_filtered:
  fixes base :: "('n::linorder) rrow frame"
  assumes "evaluate engine py_float base (qr\<lparr>keep_latest_only := False\<rparr>) = Inr filtered"
    and "positions (columns base) ''PVNumber'' = [i]"
  shows "\<exists>out. evaluate engine py_float base (qr\<lparr>keep_latest_only := True\<rparr>) = Inr out \<and>
           columns out = columns base \<and> set (rows out) \<subseteq> set (rows filtered) \<and>
           (\<forall>r\<in>set (rows filtered). \<exists>x.
              filter (\<lambda>y. pv_key (vals y ! i) = pv_key (vals r ! i)) (rows out) = [x] \<and>
              find (\<lambda>y. pv_key (vals y ! i) = pv_key (vals r ! i) \<and>
                      (\<forall>z\<in>set (rows filtered). pv_key (vals z ! i) = pv_key (vals r ! i) \<longrightarrow>
                         num_opt (CodeDate_num z) \<le> num_opt (CodeDate_num y)))
                (rows filtered) = Some x)"
proof -
  obtain m where m: "query_mask engine py_float base qr = Inr m"
    and f: "filtered = getitem_mask base m"
    using assms(1) by (auto simp: evaluate_def split: sum.splits)
  have cf: "columns filtered = columns base" by (simp add: f getitem_mask_def)
  let ?srt = "sort_key (sort_k i) (rows filtered)"
  let ?dup = "duplicated [] (map (\<lambda>r. pv_key (vals r ! i)) ?srt)"
  let ?kept = "map fst (filter snd (zip ?srt (map Not ?dup)))"
  let ?out = "filtered\<lparr>rows := ?kept\<rparr>"
  have out: "evaluate engine py_float base (qr\<lparr>keep_latest_only := True\<rparr>) = Inr ?out"
    using assms(2) m cf
    by (simp add: evaluate_def keep_latest_def Let_def f getitem_mask_def)
  have "set ?kept \<subseteq> set ?srt" by (auto dest: set_zip_leftD)
  then have sub: "set ?kept \<subseteq> set (rows filtered)" by simp
  have grp: "\<exists>x. filter (\<lambda>y. pv_key (vals y ! i) = pv_key (vals r ! i)) ?kept = [x] \<and>
              find (\<lambda>y. pv_key (vals y ! i) = pv_key (vals r ! i) \<and>
                      (\<forall>z\<in>set (rows filtered). pv_key (vals z ! i) = pv_key (vals r ! i) \<longrightarrow>
                         num_opt (CodeDate_num z) \<le> num_opt (CodeDate_num y)))
                (rows filtered) = Some x"
    if r: "r \<in> set (rows filtered)" for r
  proof -
    obtain x where x:
      "take 1 (filter (\<lambda>y. pv_key (vals y ! i) = pv_key (vals r ! i)) ?srt) = [x]"
      "find (\<lambda>y. pv_key (vals y ! i) = pv_key (vals r ! i) \<and>
                      (\<forall>z\<in>set (rows filtered). pv_key (vals z ! i) = pv_key (vals r ! i) \<longrightarrow>
                         num_opt (CodeDate_num z) \<le> num_opt (CodeDate_num y)))
                (rows filtered) = Some x"
      using sorted_group_head [OF r refl, of i] by blast
    have "filter (\<lambda>y. pv_key (vals y ! i) = pv_key (vals r ! i)) ?kept =
          take 1 (filter (\<lambda>y. pv_key (vals y ! i) = pv_key (vals r ! i)) ?srt)"
      using first_of_key [of "\<lambda>y. pv_key (vals y ! i)" "pv_key (vals r ! i)" ?srt "[]"]
      by simp
    then show ?thesis using x by simp
  qed
  show ?thesis
    using out cf sub grp by (intro exI [of _ ?out]) simp
qed

theorem keep_latest_among_filtered_witness:
  "evaluate no_engine sample_float sample_base (potato_query\<lparr>keep_latest_only := False\<rparr>) =
     Inr potato_only \<and>
   positions (columns sample_base) ''PVNumber'' = [0] \<and>
   (\<exists>out. evaluate no_engine sample_float sample_base
             (potato_query\<lparr>keep_latest_only := True\<rparr>) = Inr out \<and>
      columns out = columns sample_base \<and> set (rows out) \<subseteq> set (rows potato_only) \<and>
      (\<forall>r\<in>set (rows potato_only). \<exists>x.
         filter (\<lambda>y. pv_key (vals y ! 0) = pv_key (vals r ! 0)) (rows out) = [x] \<and>
         find (\<lambda>y. pv_key (vals y ! 0) = pv_key (vals r ! 0) \<and>
                 (\<forall>z\<in>set (rows potato_only). pv_key (vals z ! 0) = pv_key (vals r ! 0) \<longrightarrow>
                    num_opt (CodeDate_num z) \<le> num_opt (CodeDate_num y)))
           (rows potato_only) = Some x))"
proof -
  have p: "positions (columns sample_base) ''PVNumber'' = [0]"
    by (simp add: sample_base_def positions_PVNumber)
  show ?thesis
    using keep_latest_among_filtered [OF potato_filtered p] potato_filtered p by simp
qed

text \<open>
  C1, as it is stated, fails on the sample table. The global search for \<^verbatim>\<open>potato\<close> is
  satisfied by one record, the older of the two records of \<^verbatim>\<open>P1\<close>, whose flag
  \<^verbatim>\<open>IsLatestPerPV\<close> (computed by \<^verbatim>\<open>_latest_per_pv_flag\<close> on the whole table) is false.
  With the toggle on the evaluation returns this record, where the claim has no record.
\<close>

theorem latest_recomputed_counterexample:
  "latest_per_pv_flag sample_dated = Inr sample_base \<and>
   evaluate no_engine sample_float sample_base (potato_query\<lparr>keep_latest_only := False\<rparr>) =
     Inr potato_only \<and>
   evaluate no_engine sample_float sample_base (potato_query\<lparr>keep_latest_only := True\<rparr>) =
     Inr potato_only \<and>
   rows potato_only \<noteq> [] \<and>
   filter IsLatestPerPV (rows potato_only) = []"
  by code_simp

subsection \<open>The order of the result\<close>

text \<open>
  C7, as the code has it. For every table and every query on which the evaluation
  returns a table: the labels are those of the input and every row of the result is a
  row of the input. With the toggle off the rows of the result are in the order they
  have in the input. With the toggle on, lines 256 to 257 sort the filtered rows by
  \<^verbatim>\<open>PVNumber\<close> ascending and \<^verbatim>\<open>CodeDate_num\<close> descending (missing last) and keep the
  first row of each \<^verbatim>\<open>PVNumber\<close>: the result is in that sorted order, and it is in the
  order of the input when the input is sorted so already. A table returned by
  \<^verbatim>\<open>_latest_per_pv_flag\<close> is sorted so, hence on such a table the result is in the
  order of the table with the toggle on or off.
\<close>

theorem evaluate_order:
  fixes base :: "('n::linorder) rrow frame" and df :: "'n drow frame"
  assumes "evaluate engine py_float base qr = Inr out"
  shows "columns out = columns base \<and> set (rows out) \<subseteq> set (rows base) \<and>
         (\<not> keep_latest_only qr \<longrightarrow> subseq (rows out) (rows base)) \<and>
         (keep_latest_only qr \<longrightarrow>
            (\<exists>i. positions (columns base) ''PVNumber'' = [i] \<and>
                 sorted (map (sort_k i) (rows out)) \<and>
                 (sorted (map (sort_k i) (rows base)) \<longrightarrow> subseq (rows out) (rows base)))) \<and>
         (latest_per_pv_flag df = Inr base \<longrightarrow> subseq (rows out) (rows base))"
proof -
  obtain m where m: "query_mask engine py_float base qr = Inr m"
    using assms by (auto simp: evaluate_def split: sum.splits)
  let ?f = "getitem_mask base m"
  have sf: "subseq (rows ?f) (rows base)"
    by (simp add: getitem_mask_def subseq_unmarked)
  have setf: "set (rows ?f) \<subseteq> set (rows base)"
    by (auto simp: getitem_mask_def dest: set_zip_leftD)
  show ?thesis
  proof (cases "keep_latest_only qr")
    case False
    then have "out = ?f" using assms m by (simp add: evaluate_def)
    then show ?thesis using sf setf False by (simp add: getitem_mask_def)
  next
    case True
    then have k: "keep_latest ?f = Inr out" using assms m by (simp add: evaluate_def)
    then obtain i where i: "positions (columns base) ''PVNumber'' = [i]"
      by (auto simp: keep_latest_def getitem_mask_def split: list.splits)
    let ?srt = "sort_key (sort_k i) (rows ?f)"
    let ?kept = "map fst (filter snd (zip ?srt
                   (map Not (duplicated [] (map (\<lambda>r. pv_key (vals r ! i)) ?srt)))))"
    have ro: "rows out = ?kept" and c: "columns out = columns base"
      using k i by (auto simp: keep_latest_def Let_def getitem_mask_def)
    have ks: "subseq ?kept ?srt" by (rule subseq_unmarked)
    have "sorted (map (sort_k i) ?srt)" by (rule sorted_sort_key)
    then have so: "sorted (map (sort_k i) (rows out))"
      unfolding ro using ks by (rule sorted_subseq [rotated])
    have "set ?kept \<subseteq> set ?srt" by (auto dest: set_zip_leftD)
    then have sub: "set (rows out) \<subseteq> set (rows base)"
      using setf unfolding ro by simp
    have ss: "subseq (rows out) (rows base)" if "sorted (map (sort_k i) (rows base))"
    proof -
      have "sorted (map (sort_k i) (rows ?f))"
        using sf that by (rule sorted_subseq)
      then have "?srt = rows ?f" by (rule sort_key_id_if_sorted)
      then have "subseq (rows out) (rows ?f)" using ks unfolding ro by simp
      then show ?thesis using sf by (meson subseq_order.order_trans)
    qed
    have "subseq (rows out) (rows base)" if "latest_per_pv_flag df = Inr base"
      using ss latest_sorted [OF that i] by blast
    then show ?thesis using c sub so ss i True by blast
  qed
qed

theorem evaluate_order_witness:
  "evaluate no_engine sample_float sample_unsorted
     \<lparr>query_text = [], basic_filters = [(''Shape'', [''round'', ''Square''])],
      adv_filters = [], min_str = [], max_str = [], keep_latest_only = False\<rparr> =
   Inr \<lparr>columns = REQUIRED_COLUMNS,
        rows =
          [\<lparr>vals = row_of ''P2'' ''Cookie'' ''n/a'' ''round'',
            CodeDate_num = NumNaN, IsLatestPerPV = True\<rparr>,
           \<lparr>vals = row_of ''P1'' ''Microchip Tray'' ''20240101'' ''Square'',
            CodeDate_num = Num 20240101, IsLatestPerPV = True\<rparr>]\<rparr> \<and>
   subseq
     [\<lparr>vals = row_of ''P2'' ''Cookie'' ''n/a'' ''round'',
       CodeDate_num = NumNaN, IsLatestPerPV = True\<rparr>,
      \<lparr>vals = row_of ''P1'' ''Microchip Tray'' ''20240101'' ''Square'',
       CodeDate_num = Num (20240101::int), IsLatestPerPV = True\<rparr>]
     (rows sample_unsorted) \<and>
   evaluate no_engine sample_float sample_unsorted
     \<lparr>query_text = [], basic_filters = [], adv_filters = [], min_str = [], max_str = [],
      keep_latest_only = True\<rparr> =
   Inr \<lparr>columns = REQUIRED_COLUMNS,
        rows =
          [\<lparr>vals = row_of ''P1'' ''Microchip Tray'' ''20240101'' ''Square'',
            CodeDate_num = Num 20240101, IsLatestPerPV = True\<rparr>,
           \<lparr>vals = row_of ''P2'' ''Cookie'' ''n/a'' ''round'',
            CodeDate_num = NumNaN, IsLatestPerPV = True\<rparr>]\<rparr> \<and>
   positions (columns sample_unsorted) ''PVNumber'' = [0] \<and>
   sorted (map (sort_k 0)
     [\<lparr>vals = row_of ''P1'' ''Microchip Tray'' ''20240101'' ''Square'',
       CodeDate_num = Num (20240101::int), IsLatestPerPV = True\<rparr>,
      \<lparr>vals = row_of ''P2'' ''Cookie'' ''n/a'' ''round'',
       CodeDate_num = NumNaN, IsLatestPerPV = True\<rparr>]) \<and>
   latest_per_pv_flag sample_dated = Inr sample_base \<and>
   evaluate no_engine sample_float sample_base
     \<lparr>query_text = [], basic_filters = [], adv_filters = [], min_str = [], max_str = [],
      keep_latest_only = True\<rparr> =
   Inr \<lparr>columns = REQUIRED_COLUMNS,
        rows =
          [\<lparr>vals = row_of ''P1'' ''Microchip Tray'' ''20240101'' ''Square'',
            CodeDate_num = Num 20240101, IsLatestPerPV = True\<rparr>,
           \<lparr>vals = row_of ''P2'' ''Cookie'' ''n/a'' ''round'',
            CodeDate_num = NumNaN, IsLatestPerPV = True\<rparr>]\<rparr> \<and>
   subseq
     [\<lparr>vals = row_of ''P1'' ''Microchip Tray'' ''20240101'' ''Square'',
       CodeDate_num = Num (20240101::int), IsLatestPerPV = True\<rparr>,
      \<lparr>vals = row_of ''P2'' ''Cookie'' ''n/a'' ''round'',
       CodeDate_num = NumNaN, IsLatestPerPV = True\<rparr>]
     (rows sample_base)"
proof -
  have p: "positions (columns sample_unsorted) ''PVNumber'' = [0]"
    by (simp add: sample_unsorted_def positions_PVNumber)
  show ?thesis
    using evaluate_order [OF unsorted_square, of sample_dated]
      evaluate_order [OF unsorted_latest, of sample_dated]
      evaluate_order [OF all_latest, of sample_dated]
      unsorted_square unsorted_latest all_latest latest_sample p
    by simp
qed

text \<open>
  C7, as it is stated, fails. On a table with a \<^verbatim>\<open>P2\<close> record before two \<^verbatim>\<open>P1\<close>
  records, the empty query with the toggle on returns the later \<^verbatim>\<open>P1\<close> record before
  the \<^verbatim>\<open>P2\<close> record: the selected rows are sorted again and are not in the order of the
  input. And the table that the upload pipeline hands to the evaluation is itself
  sorted by \<^verbatim>\<open>_latest_per_pv_flag\<close>: for the sheet with the same three records in the
  same order, the empty query with the toggle off returns the loaded table, whose
  records are not in the order of the sheet.
\<close>

theorem evaluate_order_counterexample:
  "evaluate no_engine sample_float sample_unsorted
     \<lparr>query_text = [], basic_filters = [], adv_filters = [], min_str = [], max_str = [],
      keep_latest_only = True\<rparr> =
   Inr \<lparr>columns = REQUIRED_COLUMNS,
        rows =
          [\<lparr>vals = row_of ''P1'' ''Microchip Tray'' ''20240101'' ''Square'',
            CodeDate_num = Num 20240101, IsLatestPerPV = True\<rparr>,
           \<lparr>vals = row_of ''P2'' ''Cookie'' ''n/a'' ''round'',
            CodeDate_num = NumNaN, IsLatestPerPV = True\<rparr>]\<rparr> \<and>
   \<not> subseq
       [\<lparr>vals = row_of ''P1'' ''Microchip Tray'' ''20240101'' ''Square'',
         CodeDate_num = Num (20240101::int), IsLatestPerPV = True\<rparr>,
        \<lparr>vals = row_of ''P2'' ''Cookie'' ''n/a'' ''round'',
         CodeDate_num = NumNaN, IsLatestPerPV = True\<rparr>]
       (rows sample_unsorted) \<and>
   load sample_number sample_sheet = Inr sample_base \<and>
   evaluate no_engine sample_float sample_base
     \<lparr>query_text = [], basic_filters = [], adv_filters = [], min_str = [], max_str = [],
      keep_latest_only = False\<rparr> = Inr sample_base \<and>
   \<not> subseq (map vals (rows sample_base)) (map vals (rows sample_sheet))"
  by code_simp

subsection \<open>How a missing value is rendered\<close>

text \<open>
  C5, as the code has it. Take a sheet of texts and blanks whose rows are as long as its
  header, the table \<open>base\<close> loaded from it, and the labels \<open>uploaded\<close> that the headers
  of the sheet became after stripping and renaming. In a column whose label is not
  among \<open>uploaded\<close> (the column was added by \<^verbatim>\<open>_ensure_required\<close>) every cell is
  \<^verbatim>\<open>pd.NA\<close>; in a column whose label is among them no cell is \<^verbatim>\<open>pd.NA\<close> (a blank is
  nan). Let \<open>filled\<close> be \<open>base\<close> with every missing cell replaced by a text: \<^verbatim>\<open>nan\<close> in
  an uploaded column, \<^verbatim>\<open><NA>\<close> in an added one. Then the global search, the basic
  filters and the advanced filters, from any mask and for any search text, selection
  and filter items, and the mask of any query, give on \<open>base\<close> what they give on
  \<open>filled\<close>, errors included: each operator reads a missing value as the text \<^verbatim>\<open><NA>\<close>
  when the field was added and as the text \<^verbatim>\<open>nan\<close> when the column was uploaded.
\<close>

theorem missing_value_rendering:
  fixes base :: "('n::linorder) rrow frame"
  assumes "load parse (read_excel headers body) = Inr base"
    and "list_all (\<lambda>cs. length cs = length headers) body"
    and "uploaded = columns (apply_header_aliases (strip_columns (read_excel headers body)))"
    and "filled = with_placeholders uploaded base"
  shows "(\<forall>r\<in>set (rows base). \<forall>j<length (columns base).
            (columns base ! j \<notin> set uploaded \<longrightarrow> vals r ! j = NA) \<and>
            (columns base ! j \<in> set uploaded \<longrightarrow> vals r ! j \<noteq> NA)) \<and>
         (\<forall>k<length (rows base). \<forall>j<length (columns base).
            vals (rows filled ! k) ! j =
              (case vals (rows base ! k) ! j of
                 Str t \<Rightarrow> Str t
               | _ \<Rightarrow> Str (if columns base ! j \<in> set uploaded then ''nan'' else ''<NA>''))) \<and>
         global_mask engine q filled m = global_mask engine q base m \<and>
         basic_loop filled bf m = basic_loop base bf m \<and>
         adv_loop engine filled af m = adv_loop engine base af m \<and>
         query_mask engine py_float filled qr = query_mask engine py_float base qr"
proof -
  let ?raw = "read_excel headers body"
  have wfr: "wf_frame ?raw" using assms(2) by (rule read_excel_wf)
  have wf: "wf_frame base" using assms(1) by (rule wf_loaded)
  have cell: "(columns base ! j \<notin> set uploaded \<longrightarrow> vals r ! j = NA) \<and>
              (columns base ! j \<in> set uploaded \<longrightarrow> vals r ! j \<noteq> NA)"
    if r: "r \<in> set (rows base)" and j: "j < length (columns base)" for r j
  proof -
    have "j \<in> set (positions (columns base) (columns base ! j))"
      using j by (simp add: positions_iff)
    from loaded_cell [OF assms(1) wfr read_excel_no_NA this r] show ?thesis
      by (simp add: assms(3))
  qed
  have rp: "render (placeholder uploaded (columns base ! j) (vals r ! j)) = render (vals r ! j)"
    if r: "r \<in> set (rows base)" and j: "j < length (columns base)" for r j
    using cell [OF r j] by (simp add: render_placeholder)
  have ser: "map_sum id astype_str (series filled c) = map_sum id astype_str (series base c)"
    for c
    unfolding assms(4) using wf rp by (rule series_with_placeholders)
  have len: "length (rows filled) = length (rows base)"
    by (simp add: assms(4) with_placeholders_simps)
  have g: "global_mask engine q filled m = global_mask engine q base m" for q m
    by (simp add: global_mask_def len global_loop_text [of filled base, OF ser])
  have b: "basic_loop filled bf m = basic_loop base bf m" for bf m
    using ser by (rule basic_loop_text)
  have a: "adv_loop engine filled af m = adv_loop engine base af m" for af m
    using ser by (rule adv_loop_text)
  have d: "date_range_mask py_float mn mx filled m = date_range_mask py_float mn mx base m"
    for mn mx m
    by (simp add: assms(4) date_range_with_placeholders)
  have qm: "query_mask engine py_float filled qr = query_mask engine py_float base qr"
    by (simp only: query_mask_def len g b a d)
  have filled_cell: "vals (rows filled ! k) ! j =
              (case vals (rows base ! k) ! j of
                 Str t \<Rightarrow> Str t
               | _ \<Rightarrow> Str (if columns base ! j \<in> set uploaded then ''nan'' else ''<NA>''))"
    if k: "k < length (rows base)" and j: "j < length (columns base)" for k j
  proof -
    have "rows base ! k \<in> set (rows base)" using k by (rule nth_mem)
    then have "length (vals (rows base ! k)) = length (columns base)"
      using wf by (simp add: wf_frame_def list_all_iff)
    then show ?thesis
      using k j by (simp add: assms(4) with_placeholders_def placeholder_def)
  qed
  show ?thesis
  proof (intro conjI ballI allI)
    fix r j
    assume "r \<in> set (rows base)"
    then show "j < length (columns base) \<longrightarrow>
            (columns base ! j \<notin> set uploaded \<longrightarrow> vals r ! j = NA) \<and>
            (columns base ! j \<in> set uploaded \<longrightarrow> vals r ! j \<noteq> NA)"
      using cell by blast
  next
    fix k
    show "k < length (rows base) \<longrightarrow> (\<forall>j<length (columns base).
            vals (rows filled ! k) ! j =
              (case vals (rows base ! k) ! j of
                 Str t \<Rightarrow> Str t
               | _ \<Rightarrow> Str (if columns base ! j \<in> set uploaded then ''nan'' else ''<NA>'')))"
      using filled_cell by blast
  qed (rule g b a qm)+
qed

theorem missing_value_rendering_witness:
  "load sample_number (read_excel [''PVNumber'', ''Shape''] [[Some ''P1'', None]]) =
   Inr blank_shape_base \<and>
   list_all (\<lambda>cs. length cs = length [''PVNumber'', ''Shape'']) [[Some ''P1'', None]] \<and>
   [''PVNumber'', ''Shape''] =
   columns (apply_header_aliases (strip_columns
     (read_excel [''PVNumber'', ''Shape''] [[Some ''P1'', None]]))) \<and>
   blank_shape_filled = with_placeholders [''PVNumber'', ''Shape''] blank_shape_base \<and>
   blank_shape_row \<in> set (rows blank_shape_base) \<and>
   columns blank_shape_base ! 10 = ''Shape'' \<and> vals blank_shape_row ! 10 \<noteq> NA \<and>
   vals (rows blank_shape_filled ! 0) ! 10 = Str ''nan'' \<and>
   columns blank_shape_base ! 9 = ''Size'' \<and> vals blank_shape_row ! 9 = NA \<and>
   vals (rows blank_shape_filled ! 0) ! 9 = Str ''<NA>'' \<and>
   global_mask no_engine ''nan'' blank_shape_base [True] = Inr [True] \<and>
   global_mask no_engine ''nan'' blank_shape_filled [True] = Inr [True] \<and>
   basic_loop blank_shape_base [(''Size'', [''<NA>''])] [True] = Inr [True] \<and>
   basic_loop blank_shape_filled [(''Size'', [''<NA>''])] [True] = Inr [True] \<and>
   adv_loop no_engine blank_shape_base [(''Shape'', ''equals'', ''NaN'')] [True] = Inr [True] \<and>
   adv_loop no_engine blank_shape_filled [(''Shape'', ''equals'', ''NaN'')] [True] = Inr [True] \<and>
   query_mask no_engine sample_float blank_shape_base
     \<lparr>query_text = ''<na>'', basic_filters = [(''Shape'', [''nan''])],
      adv_filters = [(''Size'', ''in list'', ''<NA>; x'')], min_str = [], max_str = [],
      keep_latest_only = False\<rparr> = Inr [True] \<and>
   query_mask no_engine sample_float blank_shape_filled
     \<lparr>query_text = ''<na>'', basic_filters = [(''Shape'', [''nan''])],
      adv_filters = [(''Size'', ''in list'', ''<NA>; x'')], min_str = [], max_str = [],
      keep_latest_only = False\<rparr> = Inr [True]"
proof -
  have b: "list_all (\<lambda>cs. length cs = length [''PVNumber'', ''Shape'']) [[Some ''P1'', None]]"
    by simp
  note t = missing_value_rendering [OF blank_shape_upload(1) b blank_shape_upload(2,3)]
  note cells = t [THEN conjunct1, rule_format]
  note texts = t [THEN conjunct2, THEN conjunct1, rule_format]
  note ops = t [THEN conjunct2, THEN conjunct2]
  have r: "blank_shape_row \<in> set (rows blank_shape_base)"
    and k: "0 < length (rows blank_shape_base)" "rows blank_shape_base ! 0 = blank_shape_row"
    by (simp_all add: blank_shape_base_def)
  have j: "10 < length (columns blank_shape_base)" "9 < length (columns blank_shape_base)"
    by (simp_all add: blank_shape_base_def REQUIRED_COLUMNS_def)
  have c: "columns blank_shape_base ! 10 = ''Shape''" "columns blank_shape_base ! 9 = ''Size''"
    by (simp_all add: blank_shape_base_def REQUIRED_COLUMNS_def)
  have nan: "vals blank_shape_row ! 10 = NaN" by (simp add: blank_shape_row_def)
  have c10: "vals blank_shape_row ! 10 \<noteq> NA" using cells [OF r j(1)] by (simp add: c)
  have c9: "vals blank_shape_row ! 9 = NA" using cells [OF r j(2)] by (simp add: c)
  have f10: "vals (rows blank_shape_filled ! 0) ! 10 = Str ''nan''"
    using texts [OF k(1) j(1)] by (simp add: k(2) c nan)
  have f9: "vals (rows blank_shape_filled ! 0) ! 9 = Str ''<NA>''"
    using texts [OF k(1) j(2)] by (simp add: k(2) c c9)
  have g: "global_mask no_engine ''nan'' blank_shape_filled [True] = Inr [True]"
    by (simp only: ops blank_shape_masks(1))
  have bl: "basic_loop blank_shape_filled [(''Size'', [''<NA>''])] [True] = Inr [True]"
    by (simp only: ops blank_shape_masks(2))
  have al: "adv_loop no_engine blank_shape_filled [(''Shape'', ''equals'', ''NaN'')] [True] =
            Inr [True]"
    by (simp only: ops blank_shape_masks(3))
  have qm: "query_mask no_engine sample_float blank_shape_filled
     \<lparr>query_text = ''<na>'', basic_filters = [(''Shape'', [''nan''])],
      adv_filters = [(''Size'', ''in list'', ''<NA>; x'')], min_str = [], max_str = [],
      keep_latest_only = False\<rparr> = Inr [True]"
    by (simp only: ops blank_shape_masks(4))
  show ?thesis
    using blank_shape_upload b r c c10 c9 f10 f9 blank_shape_masks g bl al qm
    by (intro conjI) 
qed

text \<open>
  C5, as it is stated, fails on a sheet with the columns \<^verbatim>\<open>PVNumber\<close> and \<^verbatim>\<open>Shape\<close>
  and one row whose \<^verbatim>\<open>Shape\<close> is blank: the rendering of the missing \<^verbatim>\<open>Shape\<close> is
  \<^verbatim>\<open>nan\<close>. The basic filter that selects \<^verbatim>\<open><NA>\<close> rejects the record and the one that
  selects \<^verbatim>\<open>nan\<close> accepts it.
\<close>

theorem missing_value_rendering_counterexample:
  "load sample_number blank_shape_sheet = Inr blank_shape_base \<and>
   series blank_shape_base ''Shape'' = Inr [NaN] \<and>
   astype_str [NaN] = [''nan''] \<and>
   evaluate no_engine sample_float blank_shape_base
     \<lparr>query_text = [], basic_filters = [(''Shape'', [''<NA>''])], adv_filters = [],
      min_str = [], max_str = [], keep_latest_only = False\<rparr> =
   Inr \<lparr>columns = REQUIRED_COLUMNS, rows = []\<rparr> \<and>
   evaluate no_engine sample_float blank_shape_base
     \<lparr>query_text = [], basic_filters = [(''Shape'', [''nan''])], adv_filters = [],
      min_str = [], max_str = [], keep_latest_only = False\<rparr> =
   Inr blank_shape_base"
  by code_simp

subsection \<open>The numeric date code\<close>

text \<open>
  C8. On a table with one column \<^verbatim>\<open>CodeDate\<close>, \<^verbatim>\<open>_parse_code_date_numeric\<close> does not
  fail and changes neither the labels nor the cells. In every record of its result,
  \<^verbatim>\<open>CodeDate_num\<close> is the number \<open>x\<close> exactly when the cell \<^verbatim>\<open>CodeDate\<close> is a text that
  is not empty and that the parser reads as \<open>x\<close>; it is nan exactly when the cell is
  blank, or an empty text, or a text the parser does not read as a number. It is never
  \<^verbatim>\<open>pd.NA\<close>, and no number stands in for a text that was not read.
\<close>

theorem code_date_numeric_parse:
  assumes "positions (columns df) ''CodeDate'' = [i]"
  shows "\<exists>out. parse_code_date_numeric parse df = Inr out \<and> columns out = columns df \<and>
           map vals (rows out) = map vals (rows df) \<and>
           (\<forall>r\<in>set (rows out).
              CodeDate_num r \<noteq> NumNA \<and>
              (\<forall>x. CodeDate_num r = Num x \<longleftrightarrow>
                     (\<exists>s. vals r ! i = Str s \<and> s \<noteq> [] \<and> parse s = Some x)) \<and>
              (CodeDate_num r = NumNaN \<longleftrightarrow>
                 (\<forall>s. vals r ! i = Str s \<longrightarrow> s = [] \<or> parse s = None)))"
proof -
  let ?out = "\<lparr>columns = columns df,
               rows = map (\<lambda>r. \<lparr>vals = vals r,
                                 CodeDate_num = to_numeric_coerce parse (vals r ! i)\<rparr>)
                          (rows df)\<rparr>"
  have o: "parse_code_date_numeric parse df = Inr ?out"
    using assms by (simp add: parse_code_date_numeric_def)
  have c: "to_numeric_coerce parse v \<noteq> NumNA \<and>
           (\<forall>x. to_numeric_coerce parse v = Num x \<longleftrightarrow>
                  (\<exists>s. v = Str s \<and> s \<noteq> [] \<and> parse s = Some x)) \<and>
           (to_numeric_coerce parse v = NumNaN \<longleftrightarrow>
              (\<forall>s. v = Str s \<longrightarrow> s = [] \<or> parse s = None))" for v
    by (cases v) (auto simp: to_numeric_coerce_def split: option.splits)
  show ?thesis
    using o c by (intro exI [of _ ?out]) (simp add: comp_def)
qed

theorem code_date_numeric_parse_witness:
  "positions (columns sample_sheet) ''CodeDate'' = [7] \<and>
   parse_code_date_numeric sample_number sample_sheet = Inr sample_dated \<and>
   map (\<lambda>r. vals r ! 7) (rows sample_dated) = [Str ''n/a'', Str ''20230101'', Str ''20240101''] \<and>
   sample_number ''n/a'' = None \<and> sample_number ''20230101'' = Some 20230101 \<and>
   sample_number ''20240101'' = Some 20240101 \<and>
   map CodeDate_num (rows sample_dated) = [NumNaN, Num 20230101, Num 20240101]"
proof -
  have p: "positions (columns sample_sheet) ''CodeDate'' = [7]"
    by (simp add: sample_sheet_def positions_CodeDate)
  show ?thesis
    using code_date_numeric_parse [OF p, of sample_number] p parse_sample sample_number_texts
    by (simp add: sample_dated_def row_of_def)
qed

subsection \<open>Two headers that strip to one label\<close>

text \<open>
  C3, on a sheet whose two headers are \<^verbatim>\<open>Shape\<close> and \<^verbatim>\<open>Shape\<close> followed by a space.
  Both are \<^verbatim>\<open>Shape\<close> after \<^verbatim>\<open>_strip_columns\<close>, \<^verbatim>\<open>df[REQUIRED_COLUMNS]\<close> selects both
  columns, and the normalised table has sixteen columns, two of them labelled
  \<^verbatim>\<open>Shape\<close>. By \<open>normalize_schema\<close> the normalised table has the fifteen required
  columns in their order whenever no required label stands twice among the stripped and
  aliased headers; by \<open>parse_vals\<close> and \<open>latest_vals\<close> the later steps of the upload
  keep the labels.
\<close>

theorem normalize_twin_header:
  "normalize twin_shape_sheet =
   Inr \<lparr>columns =
          [''PVNumber'', ''PVStatus'', ''Description'', ''DocumentType'', ''NoteForMarketing'',
           ''CaseTypeDescriptor'', ''AirFillDescriptor'', ''CodeDate'', ''SalesClass'',
           ''Size'', ''Shape'', ''Shape'', ''CasesPerLayer(TI)'', ''HI(Layers/Pallet)'',
           ''TotalNumberOfCasesPerPallet'', ''BagsOrTraysPerLayer''],
        rows =
          [\<lparr>vals = [NA, NA, NA, NA, NA, NA, NA, NA, NA, NA, Str ''Round'', Str ''Square'',
                    NA, NA, NA, NA]\<rparr>]\<rparr> \<and>
   length REQUIRED_COLUMNS = 15"
  by code_simp

end
